theory Spec2Isabelle
  imports Main "HOL-Library.Multiset"
begin

section \<open>Data model\<close>

text \<open>
  A naive Python \<^verbatim>\<open>datetime\<close> is a point on a microsecond grid between
  0001-01-01T00:00:00 and 9999-12-31T23:59:59.999999. It is modelled as the number of
  microseconds since 0001-01-01T00:00:00; comparison of naive datetimes is comparison of
  these numbers.
\<close>

type_synonym datetime = int

definition minute_us :: int where
  "minute_us = 60000000"

definition day_us :: int where
  "day_us = 86400000000"

definition datetime_min :: datetime where
  "datetime_min = 0"

text \<open>9999-12-31 is day 3652059 of the proleptic Gregorian calendar (day 1 is 0001-01-01).\<close>

definition datetime_max :: datetime where
  "datetime_max = 3652059 * day_us - 1"

definition valid_datetime :: "datetime \<Rightarrow> bool" where
  "valid_datetime d = (datetime_min \<le> d \<and> d \<le> datetime_max)"

text \<open>
  The rows of table \<^verbatim>\<open>resources\<close> (models.py, class Resource). Field \<^verbatim>\<open>id\<close> is
  \<open>r_id\<close> and \<^verbatim>\<open>type\<close> is \<open>rtype\<close>.
\<close>

record Resource =
  r_id :: int
  name :: string
  rtype :: string
  is_active :: bool

text \<open>
  The request body \<^verbatim>\<open>BookingCreate\<close> (schemas.py) and the rows of table
  \<^verbatim>\<open>bookings\<close> (models.py, class Booking). A row carries the four fields of the
  request (\<^verbatim>\<open>Booking(**booking.model_dump(), status="active")\<close>) and the columns
  \<^verbatim>\<open>id\<close> (here \<open>b_id\<close>), \<^verbatim>\<open>status\<close> and \<^verbatim>\<open>created_at\<close>. The status column
  is a free string in the source and stays one here.
\<close>

record BookingCreate =
  resource_id :: int
  customer_name :: string
  start_at :: datetime
  end_at :: datetime

record Booking = BookingCreate +
  b_id :: int
  status :: string
  created_at :: datetime

text \<open>
  The database behind a session: the two tables, each a list of rows in insertion order.
\<close>

record store =
  resources :: "Resource list"
  bookings :: "Booking list"

text \<open>
  What a route can raise: an \<^verbatim>\<open>HTTPException\<close> with its status code and detail, the
  \<^verbatim>\<open>ValueError\<close> of a pydantic validator, and the \<^verbatim>\<open>OverflowError\<close> of datetime
  arithmetic that leaves the representable range.
\<close>

datatype error =
    HTTPException int string
  | ValueError string
  | OverflowError

section \<open>Booking ledger\<close>

text \<open>
  \<^verbatim>\<open>BookingCreate.check_dates(cls, v, values)\<close>: \<open>v\<close> is the candidate \<^verbatim>\<open>end_at\<close>, the
  second argument is \<^verbatim>\<open>values.data.get('start_at')\<close>.
\<close>

definition check_dates :: "datetime \<Rightarrow> datetime option \<Rightarrow> error + datetime" where
  "check_dates v start =
     (case start of
        Some s \<Rightarrow> if v \<le> s then Inl (ValueError ''end_at must be greater than start_at'')
                  else Inr v
      | None \<Rightarrow> Inr v)"

text \<open>
  Construction of the validated model from the four typed fields of the body; the only
  validator of the class is \<open>check_dates\<close> on \<^verbatim>\<open>end_at\<close>, run after \<^verbatim>\<open>start_at\<close> is
  in \<^verbatim>\<open>values.data\<close>.
\<close>

definition validate_BookingCreate :: "BookingCreate \<Rightarrow> error + BookingCreate" where
  "validate_BookingCreate body =
     (case check_dates (end_at body) (Some (start_at body)) of
        Inl e \<Rightarrow> Inl e
      | Inr v \<Rightarrow> Inr (body\<lparr>end_at := v\<rparr>))"

text \<open>
  The integer primary key SQLite gives a new row: one more than the largest key in the
  table, 1 for an empty table.
\<close>

definition next_id :: "Booking list \<Rightarrow> int" where
  "next_id rows = (if rows = [] then 1 else Max (set (map b_id rows)) + 1)"

text \<open>
  A Python integer is unbounded; an SQLite \<^verbatim>\<open>INTEGER\<close> is a signed 64-bit value. When
  a query is executed with an integer parameter outside that range, the driver raises
  \<^verbatim>\<open>OverflowError\<close> while binding it, before any row is read.
\<close>

definition in_int64 :: "int \<Rightarrow> bool" where
  "in_int64 i = (- (2 ^ 63) \<le> i \<and> i < 2 ^ 63)"

text \<open>
  \<^verbatim>\<open>create_booking(booking, db)\<close>. The second argument is the value of
  \<^verbatim>\<open>datetime.utcnow()\<close> taken for \<^verbatim>\<open>created_at\<close>. \<^verbatim>\<open>.first()\<close> is \<open>find\<close>. The result
  is the response or the exception, and the store after the call. The resource query
  binds \<^verbatim>\<open>booking.resource_id\<close>.
\<close>

definition create_booking ::
  "BookingCreate \<Rightarrow> datetime \<Rightarrow> store \<Rightarrow> (error + Booking) \<times> store" where
  "create_booking booking now db =
     (if \<not> in_int64 (resource_id booking) then (Inl OverflowError, db)
      else
      case find (\<lambda>r. r_id r = resource_id booking) (resources db) of
        None \<Rightarrow> (Inl (HTTPException 400 ''Resource not found or inactive''), db)
      | Some resource \<Rightarrow>
          if \<not> is_active resource
          then (Inl (HTTPException 400 ''Resource not found or inactive''), db)
          else
            (case find (\<lambda>b. resource_id b = resource_id booking \<and>
                             status b = ''active'' \<and>
                             start_at b < end_at booking \<and>
                             end_at b > start_at booking) (bookings db) of
               Some conflict \<Rightarrow> (Inl (HTTPException 409 ''Time slot already booked''), db)
             | None \<Rightarrow>
                 (let new_booking =
                        \<lparr>resource_id = resource_id booking,
                         customer_name = customer_name booking,
                         start_at = start_at booking,
                         end_at = end_at booking,
                         b_id = next_id (bookings db),
                         status = ''active'',
                         created_at = now\<rparr>
                  in (Inr new_booking, db\<lparr>bookings := bookings db @ [new_booking]\<rparr>))))"

text \<open>
  The route \<^verbatim>\<open>POST /bookings\<close>: the body is validated into a \<^verbatim>\<open>BookingCreate\<close> before
  the handler runs; a validation error ends the request without calling it.
\<close>

definition post_bookings ::
  "BookingCreate \<Rightarrow> datetime \<Rightarrow> store \<Rightarrow> (error + Booking) \<times> store" where
  "post_bookings body now db =
     (case validate_BookingCreate body of
        Inl e \<Rightarrow> (Inl e, db)
      | Inr booking \<Rightarrow> create_booking booking now db)"

text \<open>
  \<^verbatim>\<open>cancel_booking(booking_id, db)\<close>. The commit writes the new status to the row with
  that primary key; the refreshed row is returned.
\<close>

definition cancel_booking :: "int \<Rightarrow> store \<Rightarrow> (error + Booking) \<times> store" where
  "cancel_booking booking_id db =
     (case find (\<lambda>b. b_id b = booking_id) (bookings db) of
        None \<Rightarrow> (Inl (HTTPException 404 ''Booking not found''), db)
      | Some booking \<Rightarrow>
          (Inr (booking\<lparr>status := ''canceled''\<rparr>),
           db\<lparr>bookings :=
                 map (\<lambda>b. if b_id b = booking_id then b\<lparr>status := ''canceled''\<rparr> else b)
                     (bookings db)\<rparr>))"

text \<open>
  \<^verbatim>\<open>get_bookings(resource_id, date_from, date_to, status, db)\<close>. Each \<^verbatim>\<open>if x:\<close> tests
  Python truthiness: \<^verbatim>\<open>None\<close>, the integer 0 and the empty string are false, every
  datetime is true. The query is executed by \<^verbatim>\<open>.all()\<close>; when the filter on
  \<^verbatim>\<open>resource_id\<close> was added, its value is bound there.
\<close>

definition get_bookings ::
  "int option \<Rightarrow> datetime option \<Rightarrow> datetime option \<Rightarrow> string option \<Rightarrow> store
     \<Rightarrow> error + Booking list" where
  "get_bookings resource_id_q date_from date_to status_q db =
     (let query = bookings db;
          query = (case resource_id_q of
                     Some r \<Rightarrow> if r \<noteq> 0 then filter (\<lambda>b. resource_id b = r) query else query
                   | None \<Rightarrow> query);
          query = (case date_from of
                     Some d \<Rightarrow> filter (\<lambda>b. start_at b \<ge> d) query
                   | None \<Rightarrow> query);
          query = (case date_to of
                     Some d \<Rightarrow> filter (\<lambda>b. end_at b \<le> d) query
                   | None \<Rightarrow> query);
          query = (case status_q of
                     Some s \<Rightarrow> if s \<noteq> [] then filter (\<lambda>b. status b = s) query else query
                   | None \<Rightarrow> query)
      in if (case resource_id_q of Some r \<Rightarrow> r \<noteq> 0 \<and> \<not> in_int64 r | None \<Rightarrow> False)
         then Inl OverflowError
         else Inr (sort_key start_at query))"

text \<open>
  The requests that change bookings, for reasoning about sequences of them:
  \<^verbatim>\<open>POST /bookings\<close> with its body and the clock value, and
  \<^verbatim>\<open>POST /bookings/{booking_id}/cancel\<close>.
\<close>

datatype request =
    CreateBooking BookingCreate datetime
  | CancelBooking int

fun step :: "request \<Rightarrow> store \<Rightarrow> store" where
  "step (CreateBooking body now) db = snd (post_bookings body now db)"
| "step (CancelBooking booking_id) db = snd (cancel_booking booking_id db)"

definition run :: "request list \<Rightarrow> store \<Rightarrow> store" where
  "run reqs db = fold step reqs db"

section \<open>Availability calculator\<close>

text \<open>
  \<^verbatim>\<open>d + timedelta(minutes=m)\<close>: the sum, or \<^verbatim>\<open>OverflowError\<close> when it is not a
  representable datetime. (A \<^verbatim>\<open>timedelta\<close> too large to construct is larger than the
  whole datetime range, so that case raises the same error.)
\<close>

definition add_minutes :: "datetime \<Rightarrow> int \<Rightarrow> error + datetime" where
  "add_minutes d m =
     (let r = d + m * minute_us
      in if valid_datetime r then Inr r else Inl OverflowError)"

text \<open>\<^verbatim>\<open>.date()\<close>, \<^verbatim>\<open>.time()\<close> and \<^verbatim>\<open>datetime.combine\<close>; a date is a day number.\<close>

definition date_of :: "datetime \<Rightarrow> int" where
  "date_of d = d div day_us"

definition time_of :: "datetime \<Rightarrow> int" where
  "time_of d = d mod day_us"

definition combine :: "int \<Rightarrow> int \<Rightarrow> datetime" where
  "combine target_date t = target_date * day_us + t"

text \<open>
  An entry \<^verbatim>\<open>{"start": ..., "end": ...}\<close> of the result is the pair of its two
  datetimes (their rendering by \<^verbatim>\<open>isoformat\<close> is not modelled), and the response is a
  record of its three keys.
\<close>

type_synonym slot = "datetime \<times> datetime"

record availability =
  resp_resource_id :: int
  resp_date :: string
  resp_available_slots :: "slot list"

text \<open>The inner \<^verbatim>\<open>for b in bookings\<close> loop with its \<^verbatim>\<open>break\<close>: the final \<^verbatim>\<open>is_free\<close>.\<close>

fun is_free :: "datetime \<Rightarrow> datetime \<Rightarrow> Booking list \<Rightarrow> bool" where
  "is_free current_slot slot_end [] = True"
| "is_free current_slot slot_end (b # bs) =
     (if current_slot < end_at b \<and> slot_end > start_at b then False
      else is_free current_slot slot_end bs)"

text \<open>
  The \<^verbatim>\<open>while\<close> loop of \<^verbatim>\<open>get_availability\<close>, from the values of \<^verbatim>\<open>current_slot\<close>
  and \<^verbatim>\<open>available_slots\<close> at a loop head. \<open>None\<close> is a loop that never returns.
\<close>

partial_function (option) slot_loop ::
  "int \<Rightarrow> datetime \<Rightarrow> Booking list \<Rightarrow> datetime \<Rightarrow> slot list \<Rightarrow> (error + slot list) option"
where
  "slot_loop slot_minutes day_end bs current_slot available_slots =
     (case add_minutes current_slot slot_minutes of
        Inl e \<Rightarrow> Some (Inl e)
      | Inr slot_end \<Rightarrow>
          if slot_end \<le> day_end
          then slot_loop slot_minutes day_end bs slot_end
                 (if is_free current_slot slot_end bs
                  then available_slots @ [(current_slot, slot_end)]
                  else available_slots)
          else Some (Inr available_slots))"

declare slot_loop.simps [code]

text \<open>
  The same loop allowed at most \<open>n\<close> executions of its body: \<open>None\<close> when the loop
  condition still holds after \<open>n\<close> of them.
\<close>

fun slot_loop_bounded ::
  "nat \<Rightarrow> int \<Rightarrow> datetime \<Rightarrow> Booking list \<Rightarrow> datetime \<Rightarrow> slot list
     \<Rightarrow> (error + slot list) option"
where
  "slot_loop_bounded 0 slot_minutes day_end bs current_slot available_slots =
     (case add_minutes current_slot slot_minutes of
        Inl e \<Rightarrow> Some (Inl e)
      | Inr slot_end \<Rightarrow>
          if slot_end \<le> day_end then None else Some (Inr available_slots))"
| "slot_loop_bounded (Suc n) slot_minutes day_end bs current_slot available_slots =
     (case add_minutes current_slot slot_minutes of
        Inl e \<Rightarrow> Some (Inl e)
      | Inr slot_end \<Rightarrow>
          if slot_end \<le> day_end
          then slot_loop_bounded n slot_minutes day_end bs slot_end
                 (if is_free current_slot slot_end bs
                  then available_slots @ [(current_slot, slot_end)]
                  else available_slots)
          else Some (Inr available_slots))"

text \<open>
  \<^verbatim>\<open>get_availability(resource_id, date, slot_minutes, work_start, work_end, db)\<close>. The
  library function \<^verbatim>\<open>datetime.strptime\<close> is the first argument: it maps a string and a
  format to the parsed datetime, or to \<open>None\<close> where it raises \<^verbatim>\<open>ValueError\<close>.
  The bookings query, executed before the loop, binds \<^verbatim>\<open>resource_id\<close>.
\<close>

definition get_availability ::
  "(string \<Rightarrow> string \<Rightarrow> datetime option) \<Rightarrow> int \<Rightarrow> string \<Rightarrow> int \<Rightarrow> string \<Rightarrow> string \<Rightarrow> store
     \<Rightarrow> (error + availability) option" where
  "get_availability strptime resource_id_q date slot_minutes work_start work_end db =
     (case strptime date ''%Y-%m-%d'' of
        None \<Rightarrow> Some (Inl (HTTPException 400 ''Invalid date/time format''))
      | Some d \<Rightarrow>
     (case strptime work_start ''%H:%M'' of
        None \<Rightarrow> Some (Inl (HTTPException 400 ''Invalid date/time format''))
      | Some s \<Rightarrow>
     (case strptime work_end ''%H:%M'' of
        None \<Rightarrow> Some (Inl (HTTPException 400 ''Invalid date/time format''))
      | Some e \<Rightarrow>
          (let target_date = date_of d;
               start_t = time_of s;
               end_t = time_of e;
               day_start = combine target_date start_t;
               day_end = combine target_date end_t;
               bs = sort_key start_at
                      (filter (\<lambda>b. resource_id b = resource_id_q \<and>
                                    status b = ''active'' \<and>
                                    end_at b > day_start \<and>
                                    start_at b < day_end) (bookings db))
           in if \<not> in_int64 resource_id_q then Some (Inl OverflowError)
              else
              (case slot_loop slot_minutes day_end bs day_start [] of
                 None \<Rightarrow> None
               | Some (Inl err) \<Rightarrow> Some (Inl err)
               | Some (Inr slots) \<Rightarrow>
                   Some (Inr \<lparr>resp_resource_id = resource_id_q,
                              resp_date = date,
                              resp_available_slots = slots\<rparr>))))))"

section \<open>The specification's reading of the invariant and of the availability grid\<close>

text \<open>
  The core invariant on a bookings table: two different rows of one resource that are
  both active do not overlap as half-open intervals.
\<close>

definition spec_no_overlap :: "Booking list \<Rightarrow> bool" where
  "spec_no_overlap rows =
     (\<forall>B1\<in>set rows. \<forall>B2\<in>set rows.
        B1 \<noteq> B2 \<and> resource_id B1 = resource_id B2 \<and>
        status B1 = ''active'' \<and> status B2 = ''active'' \<longrightarrow>
        \<not> (start_at B1 < end_at B2 \<and> start_at B2 < end_at B1))"

text \<open>
  The candidate slots as the specification words them: consecutive slots of exactly
  \<open>len\<close> microseconds, the first starting at \<open>day_start\<close>, as many as fit entirely
  before \<open>day_end\<close> (a trailing partial slot is dropped).
\<close>

definition spec_candidate_slots :: "datetime \<Rightarrow> datetime \<Rightarrow> int \<Rightarrow> slot list" where
  "spec_candidate_slots day_start day_end len =
     map (\<lambda>k. (day_start + int k * len, day_start + (int k + 1) * len))
         [0 ..< nat ((day_end - day_start) div len)]"

text \<open>The half-open overlap test between a candidate slot and a booking.\<close>

definition spec_overlaps :: "slot \<Rightarrow> Booking \<Rightarrow> bool" where
  "spec_overlaps c b = (fst c < end_at b \<and> start_at b < snd c)"

text \<open>
  The loaded bookings: the active bookings of the resource whose interval intersects
  the working window.
\<close>

definition spec_loaded :: "int \<Rightarrow> datetime \<Rightarrow> datetime \<Rightarrow> store \<Rightarrow> Booking list" where
  "spec_loaded rid day_start day_end db =
     filter (\<lambda>b. resource_id b = rid \<and> status b = ''active'' \<and>
                 end_at b > day_start \<and> start_at b < day_end) (bookings db)"

text \<open>A candidate slot is free when it overlaps none of the loaded bookings.\<close>

definition spec_free :: "Booking list \<Rightarrow> slot \<Rightarrow> bool" where
  "spec_free loaded c = list_all (\<lambda>b. \<not> spec_overlaps c b) loaded"

section \<open>Example data\<close>

text \<open>One resource, active or not, and requests and rows for it.\<close>

definition ex_room :: Resource where
  "ex_room = \<lparr>r_id = 1, name = ''Room A'', rtype = ''room'', is_active = True\<rparr>"

definition ex_closed_room :: Resource where
  "ex_closed_room = \<lparr>r_id = 1, name = ''Room A'', rtype = ''room'', is_active = False\<rparr>"

definition ex_body :: "datetime \<Rightarrow> datetime \<Rightarrow> BookingCreate" where
  "ex_body s e = \<lparr>resource_id = 1, customer_name = ''Ann'', start_at = s, end_at = e\<rparr>"

definition ex_row :: "int \<Rightarrow> datetime \<Rightarrow> datetime \<Rightarrow> string \<Rightarrow> Booking" where
  "ex_row i s e st =
     \<lparr>resource_id = 1, customer_name = ''Ann'', start_at = s, end_at = e,
      b_id = i, status = st, created_at = 0\<rparr>"

text \<open>Stores: without bookings, with one booking, with two back-to-back bookings.\<close>

definition ex_empty :: store where
  "ex_empty = \<lparr>resources = [ex_room], bookings = []\<rparr>"

definition ex_one_booking :: store where
  "ex_one_booking = \<lparr>resources = [ex_room], bookings = [ex_row 1 600 660 ''active'']\<rparr>"

definition ex_store :: store where
  "ex_store = \<lparr>resources = [ex_room],
               bookings = [ex_row 1 600 660 ''active'', ex_row 2 660 720 ''active'']\<rparr>"

text \<open>A store whose resource was deactivated after a booking was made.\<close>

definition ex_closed_store :: store where
  "ex_closed_store = \<lparr>resources = [ex_closed_room],
                      bookings = [ex_row 1 600 660 ''active'']\<rparr>"

text \<open>A store for listing: rows out of start order, one of them canceled.\<close>

definition ex_listing :: store where
  "ex_listing = \<lparr>resources = [ex_room],
      bookings = [ex_row 1 660 720 ''active'', ex_row 2 600 660 ''active'',
                  ex_row 3 720 780 ''canceled'', ex_row 4 640 650 ''active'']\<rparr>"

text \<open>
  The scenario of the specification: a booking, a request nested in it, a request
  starting where it ends.
\<close>

definition ex_requests :: "request list" where
  "ex_requests = [CreateBooking (ex_body 600 660) 0, CreateBooking (ex_body 630 645) 0,
                  CreateBooking (ex_body 660 720) 0]"

text \<open>
  2024-01-01 is day 738886 of the calendar, so midnight of that day is 738885 days after
  0001-01-01T00:00; \<open>ex_at m\<close> is \<open>m\<close> minutes into that day.
\<close>

definition ex_day :: datetime where
  "ex_day = 738885 * day_us"

definition ex_at :: "int \<Rightarrow> datetime" where
  "ex_at m = ex_day + m * minute_us"

text \<open>
  The values of \<^verbatim>\<open>datetime.strptime\<close> on the strings used below, and \<open>None\<close>
  everywhere else: \<^verbatim>\<open>strptime("2024-01-01", "%Y-%m-%d")\<close> is 2024-01-01T00:00, and
  \<^verbatim>\<open>strptime("09:00", "%H:%M")\<close> is 1900-01-01T09:00 (1900-01-01 is day 693596).
\<close>

definition ex_strptime :: "string \<Rightarrow> string \<Rightarrow> datetime option" where
  "ex_strptime s fmt =
     (if fmt = ''%Y-%m-%d'' \<and> s = ''2024-01-01'' then Some ex_day
      else if fmt = ''%H:%M'' \<and> s = ''09:00'' then Some (693595 * day_us + 540 * minute_us)
      else if fmt = ''%H:%M'' \<and> s = ''11:00'' then Some (693595 * day_us + 660 * minute_us)
      else if fmt = ''%H:%M'' \<and> s = ''18:00'' then Some (693595 * day_us + 1080 * minute_us)
      else None)"

text \<open>One active booking from 10:00 to 10:30 on 2024-01-01.\<close>

definition ex_schedule :: store where
  "ex_schedule = \<lparr>resources = [ex_room],
                  bookings = [ex_row 1 (ex_at 600) (ex_at 630) ''active'']\<rparr>"

section \<open>Resource check of \<open>create_booking\<close>\<close>

text \<open>
  An id that does not fit the integer column cannot be bound: the resource query raises
  and nothing is written.
\<close>

lemma create_booking_unbound_id:
  "\<not> in_int64 (resource_id booking) \<Longrightarrow>
     create_booking booking now db = (Inl OverflowError, db)"
  by (simp add: create_booking_def)

text \<open>
  Claim C4 says that \<open>create_booking\<close> fails with one error when the resource is absent
  and with a different one when it is inactive. The source has a single guard
  \<^verbatim>\<open>if not resource or not resource.is_active\<close> raising one exception for both. At the
  same request, a store without resource 1 and a store where resource 1 is inactive give
  the same error.
\<close>

theorem create_booking_same_error_counterexample:
  "fst (create_booking (ex_body 600 660) 0 \<lparr>resources = [], bookings = []\<rparr>) =
   fst (create_booking (ex_body 600 660) 0 \<lparr>resources = [ex_closed_room], bookings = []\<rparr>)"
  by (simp add: create_booking_def in_int64_def ex_body_def ex_closed_room_def)

text \<open>
  Claim C4 as amended: for a resource id that the integer column can hold (a signed
  64-bit value), \<open>create_booking\<close> fails with
  \<open>HTTPException 400 ''Resource not found or inactive''\<close>, leaving the store as it was,
  exactly when no resource has the given id or the resource found is inactive; the two
  causes give the same error.
\<close>

theorem create_booking_resource_error:
  assumes "in_int64 (resource_id booking)"
  shows "create_booking booking now db =
           (Inl (HTTPException 400 ''Resource not found or inactive''), db) \<longleftrightarrow>
         (find (\<lambda>r. r_id r = resource_id booking) (resources db) = None \<or>
          (\<exists>r. find (\<lambda>r. r_id r = resource_id booking) (resources db) = Some r \<and>
               \<not> is_active r))"
  using assms by (auto simp add: create_booking_def Let_def split: option.splits)

theorem create_booking_resource_error_witness:
  "in_int64 (resource_id (ex_body 600 660)) \<and>
   create_booking (ex_body 600 660) 0 \<lparr>resources = [ex_closed_room], bookings = []\<rparr> =
     (Inl (HTTPException 400 ''Resource not found or inactive''),
      \<lparr>resources = [ex_closed_room], bookings = []\<rparr>) \<and>
   create_booking (ex_body 600 660) 0 \<lparr>resources = [], bookings = []\<rparr> =
     (Inl (HTTPException 400 ''Resource not found or inactive''),
      \<lparr>resources = [], bookings = []\<rparr>) \<and>
   create_booking (ex_body 600 660) 0 ex_empty \<noteq>
     (Inl (HTTPException 400 ''Resource not found or inactive''), ex_empty)"
proof -
  have i: "in_int64 (resource_id (ex_body 600 660))"
    by (simp add: in_int64_def ex_body_def)
  show ?thesis
    using i
      create_booking_resource_error
          [OF i, of 0 "\<lparr>resources = [ex_closed_room], bookings = []\<rparr>"]
      create_booking_resource_error
          [OF i, of 0 "\<lparr>resources = [], bookings = []\<rparr>"]
      create_booking_resource_error [OF i, of 0 ex_empty]
    by (simp add: ex_body_def ex_closed_room_def ex_empty_def ex_room_def)
qed

section \<open>Validation of the dates\<close>

text \<open>
  Claim C5: a request body with \<open>end_at \<le> start_at\<close> is rejected by the validator
  \<open>check_dates\<close> with its \<open>ValueError\<close>, whatever the store holds: the result does not
  depend on the store, and the store is returned as it was. The handler
  \<open>create_booking\<close>, which holds every query, is not reached.
\<close>

theorem post_bookings_rejects_bad_dates:
  "end_at body \<le> start_at body \<Longrightarrow>
     post_bookings body now db =
       (Inl (ValueError ''end_at must be greater than start_at''), db)"
  by (simp add: post_bookings_def validate_BookingCreate_def check_dates_def)

theorem post_bookings_rejects_bad_dates_witness:
  "end_at (ex_body 600 600) \<le> start_at (ex_body 600 600) \<and>
   post_bookings (ex_body 600 600) 0 \<lparr>resources = [ex_room], bookings = []\<rparr> =
     (Inl (ValueError ''end_at must be greater than start_at''),
      \<lparr>resources = [ex_room], bookings = []\<rparr>)"
  using post_bookings_rejects_bad_dates
          [of "ex_body 600 600" 0 "\<lparr>resources = [ex_room], bookings = []\<rparr>"]
  by (simp add: ex_body_def)

section \<open>Cancelling\<close>

lemma find_cancelled:
  "find (\<lambda>b. b_id b = i)
        (map (\<lambda>b. if b_id b = i then b\<lparr>status := ''canceled''\<rparr> else b) xs) =
   map_option (\<lambda>b. b\<lparr>status := ''canceled''\<rparr>) (find (\<lambda>b. b_id b = i) xs)"
  by (induction xs) auto

lemma cancel_booking_found:
  "find (\<lambda>b. b_id b = booking_id) (bookings db) = Some b0 \<Longrightarrow>
   cancel_booking booking_id db =
     (Inr (b0\<lparr>status := ''canceled''\<rparr>),
      db\<lparr>bookings :=
            map (\<lambda>b. if b_id b = booking_id then b\<lparr>status := ''canceled''\<rparr> else b)
                (bookings db)\<rparr>)"
  by (simp add: cancel_booking_def)

text \<open>
  Claim C6: when the booking id resolves, the first \<open>cancel_booking\<close> returns a booking
  \<open>b'\<close> with status \<open>''canceled''\<close>; a second call on the resulting store returns the
  same \<open>b'\<close> without error and leaves that store as it is, and the stored row is \<open>b'\<close>.
\<close>

theorem cancel_booking_idempotent:
  assumes "find (\<lambda>b. b_id b = booking_id) (bookings db) = Some b0"
  shows "\<exists>b' db1. cancel_booking booking_id db = (Inr b', db1) \<and>
           cancel_booking booking_id db1 = (Inr b', db1) \<and>
           status b' = ''canceled'' \<and>
           find (\<lambda>b. b_id b = booking_id) (bookings db1) = Some b'"
proof -
  let ?c = "\<lambda>b. if b_id b = booking_id then b\<lparr>status := ''canceled''\<rparr> else b"
  let ?db1 = "db\<lparr>bookings := map ?c (bookings db)\<rparr>"
  let ?b' = "b0\<lparr>status := ''canceled''\<rparr>"
  have first: "cancel_booking booking_id db = (Inr ?b', ?db1)"
    using assms by (rule cancel_booking_found)
  have found: "find (\<lambda>b. b_id b = booking_id) (bookings ?db1) = Some ?b'"
    using assms by (simp add: find_cancelled)
  have again: "map ?c (map ?c (bookings db)) = map ?c (bookings db)"
    by simp
  have second: "cancel_booking booking_id ?db1 = (Inr ?b', ?db1)"
    using cancel_booking_found [OF found] again by simp
  have "status ?b' = ''canceled''" by simp
  with first second found show ?thesis by blast
qed

theorem cancel_booking_idempotent_witness:
  "find (\<lambda>b. b_id b = 1) (bookings ex_store) = Some (ex_row 1 600 660 ''active'') \<and>
   (\<exists>b' db1. cancel_booking 1 ex_store = (Inr b', db1) \<and>
      cancel_booking 1 db1 = (Inr b', db1) \<and>
      status b' = ''canceled'' \<and>
      find (\<lambda>b. b_id b = 1) (bookings db1) = Some b')"
proof -
  have f: "find (\<lambda>b. b_id b = 1) (bookings ex_store) = Some (ex_row 1 600 660 ''active'')"
    by (simp add: ex_store_def ex_row_def)
  show ?thesis
    using f cancel_booking_idempotent [OF f] by simp
qed

text \<open>
  Claim C7: for an existing booking, \<open>cancel_booking\<close> returns it with status
  \<open>''canceled''\<close> and its other fields as they were; in the store the resources are
  untouched, the bookings table keeps its length, every row with that id differs from
  the old row in its status only, and every other row is the old row.
\<close>

theorem cancel_booking_frame:
  assumes "find (\<lambda>b. b_id b = booking_id) (bookings db) = Some b0"
  shows "(\<exists>b'. fst (cancel_booking booking_id db) = Inr b' \<and>
            status b' = ''canceled'' \<and> b_id b' = b_id b0 \<and>
            start_at b' = start_at b0 \<and> end_at b' = end_at b0 \<and>
            customer_name b' = customer_name b0 \<and> resource_id b' = resource_id b0 \<and>
            created_at b' = created_at b0) \<and>
         resources (snd (cancel_booking booking_id db)) = resources db \<and>
         length (bookings (snd (cancel_booking booking_id db))) = length (bookings db) \<and>
         (\<forall>i < length (bookings db).
            bookings (snd (cancel_booking booking_id db)) ! i =
              (if b_id (bookings db ! i) = booking_id
               then (bookings db ! i)\<lparr>status := ''canceled''\<rparr>
               else bookings db ! i))"
  using assms by (simp add: cancel_booking_found)

theorem cancel_booking_frame_witness:
  "find (\<lambda>b. b_id b = 2) (bookings ex_store) = Some (ex_row 2 660 720 ''active'') \<and>
   fst (cancel_booking 2 ex_store) = Inr (ex_row 2 660 720 ''canceled'') \<and>
   snd (cancel_booking 2 ex_store) =
     \<lparr>resources = [ex_room],
      bookings = [ex_row 1 600 660 ''active'', ex_row 2 660 720 ''canceled'']\<rparr>"
proof -
  have f: "find (\<lambda>b. b_id b = 2) (bookings ex_store) = Some (ex_row 2 660 720 ''active'')"
    by (simp add: ex_store_def ex_row_def)
  show ?thesis
    using f cancel_booking_frame [OF f]
    by (simp add: cancel_booking_def ex_store_def ex_row_def)
qed

section \<open>Listing\<close>

text \<open>
  A \<^verbatim>\<open>resource_id\<close> filter whose value does not fit the integer column cannot be bound:
  the listing raises. (Such a value is not 0, so the filter is added.)
\<close>

lemma get_bookings_unbound_id:
  "\<not> in_int64 r \<Longrightarrow> get_bookings (Some r) date_from date_to status_q db = Inl OverflowError"
  by (auto simp add: get_bookings_def Let_def in_int64_def)

text \<open>
  Claim C10: a filter value that Python takes for false is ignored. Listing with
  \<^verbatim>\<open>resource_id = 0\<close> gives what listing without \<^verbatim>\<open>resource_id\<close> gives, and listing
  with the empty status gives what listing without status gives, whatever the other
  filters are; with no other filter that is every booking.
\<close>

theorem get_bookings_falsy_filter:
  "get_bookings (Some 0) date_from date_to status_q db =
     get_bookings None date_from date_to status_q db \<and>
   get_bookings resource_id_q date_from date_to (Some '''') db =
     get_bookings resource_id_q date_from date_to None db \<and>
   (\<exists>xs. get_bookings (Some 0) None None None db = Inr xs \<and> mset xs = mset (bookings db)) \<and>
   (\<exists>xs. get_bookings None None None (Some '''') db = Inr xs \<and> mset xs = mset (bookings db))"
  by (simp add: get_bookings_def)

text \<open>
  Claim C8 says that every provided filter restricts the result. A provided
  \<^verbatim>\<open>resource_id = 0\<close> does not: the listing holds bookings of resource 1.
\<close>

theorem get_bookings_ignores_falsy_counterexample:
  "get_bookings (Some 0) None None None ex_store =
     Inr [ex_row 1 600 660 ''active'', ex_row 2 660 720 ''active''] \<and>
   resource_id (ex_row 1 600 660 ''active'') \<noteq> 0"
  by (simp add: get_bookings_def ex_store_def ex_row_def)

text \<open>
  Claim C8 as amended: with a \<open>resource_id\<close> filter that, when given, is a value the
  integer column can hold (a signed 64-bit value), \<open>get_bookings\<close> returns, ascending by
  \<open>start_at\<close>, exactly the bookings (as a multiset of rows) that satisfy every filter
  that is provided and true for Python: \<open>resource_id\<close> when it is given and not 0,
  \<open>date_from\<close> and \<open>date_to\<close> when they are given, \<open>status\<close> when it is given and not
  empty. With no filter it returns every booking.
\<close>

theorem get_bookings_filters:
  assumes "\<forall>r. resource_id_q = Some r \<longrightarrow> in_int64 r"
  shows "(\<exists>xs. get_bookings resource_id_q date_from date_to status_q db = Inr xs \<and>
            mset xs =
              mset (filter (\<lambda>b. (\<forall>r. resource_id_q = Some r \<and> r \<noteq> 0 \<longrightarrow> resource_id b = r) \<and>
                                 (\<forall>d. date_from = Some d \<longrightarrow> start_at b \<ge> d) \<and>
                                 (\<forall>d. date_to = Some d \<longrightarrow> end_at b \<le> d) \<and>
                                 (\<forall>s. status_q = Some s \<and> s \<noteq> [] \<longrightarrow> status b = s))
                           (bookings db)) \<and>
            sorted (map start_at xs)) \<and>
         (\<exists>ys. get_bookings None None None None db = Inr ys \<and> mset ys = mset (bookings db))"
proof -
  let ?P = "\<lambda>b. (\<forall>r. resource_id_q = Some r \<and> r \<noteq> 0 \<longrightarrow> resource_id b = r) \<and>
                 (\<forall>d. date_from = Some d \<longrightarrow> start_at b \<ge> d) \<and>
                 (\<forall>d. date_to = Some d \<longrightarrow> end_at b \<le> d) \<and>
                 (\<forall>s. status_q = Some s \<and> s \<noteq> [] \<longrightarrow> status b = s)"
  have "get_bookings resource_id_q date_from date_to status_q db =
          Inr (sort_key start_at (filter ?P (bookings db)))"
    using assms
    by (cases resource_id_q; cases date_from; cases date_to; cases status_q)
       (simp_all add: get_bookings_def Let_def conj_commute conj_left_commute cong: conj_cong)
  moreover have "get_bookings None None None None db = Inr (sort_key start_at (bookings db))"
    by (simp add: get_bookings_def)
  ultimately show ?thesis by simp
qed

theorem get_bookings_filters_witness:
  "in_int64 1 \<and>
   (\<exists>xs. get_bookings (Some 1) (Some 630) None (Some ''active'') ex_listing = Inr xs \<and>
      mset xs = {#ex_row 1 660 720 ''active'', ex_row 4 640 650 ''active''#} \<and>
      sorted (map start_at xs)) \<and>
   get_bookings (Some 1) (Some 630) None (Some ''active'') ex_listing =
     Inr [ex_row 4 640 650 ''active'', ex_row 1 660 720 ''active''] \<and>
   (\<exists>ys. get_bookings None None None None ex_listing = Inr ys \<and>
      mset ys = mset (bookings ex_listing))"
proof -
  have one: "in_int64 1"
    by (simp add: in_int64_def)
  then have i: "\<forall>r. Some (1::int) = Some r \<longrightarrow> in_int64 r"
    by simp
  have run: "get_bookings (Some 1) (Some 630) None (Some ''active'') ex_listing =
     Inr [ex_row 4 640 650 ''active'', ex_row 1 660 720 ''active'']"
    by (simp add: get_bookings_def in_int64_def ex_listing_def ex_row_def)
  show ?thesis
    using one run get_bookings_filters [OF i, of "Some 630" None "Some ''active''" ex_listing]
    by (simp add: ex_listing_def ex_row_def)
qed

section \<open>Conflict check of \<open>create_booking\<close>\<close>

text \<open>
  Claim C2 says that \<open>create_booking\<close> rejects with the conflict error exactly when a
  stored active booking of the resource overlaps the request. The resource check comes
  first: where the resource is inactive and such a booking is stored, the request is
  rejected with the error of the resource check, not with the conflict error.
\<close>

theorem create_booking_inactive_overlap_counterexample:
  "fst (create_booking (ex_body 630 645) 0 ex_closed_store) =
     Inl (HTTPException 400 ''Resource not found or inactive'') \<and>
   bookings ex_closed_store = [ex_row 1 600 660 ''active''] \<and>
   resource_id (ex_row 1 600 660 ''active'') = resource_id (ex_body 630 645) \<and>
   status (ex_row 1 600 660 ''active'') = ''active'' \<and>
   start_at (ex_row 1 600 660 ''active'') < end_at (ex_body 630 645) \<and>
   end_at (ex_row 1 600 660 ''active'') > start_at (ex_body 630 645)"
  by (simp add: create_booking_def in_int64_def ex_closed_store_def ex_closed_room_def
        ex_body_def ex_row_def)

lemma find_None_iff_ball: "find P xs = None \<longleftrightarrow> (\<forall>x\<in>set xs. \<not> P x)"
  by (induction xs) auto

text \<open>
  Claim C2 as amended: for a resource that exists and is active (its id, like every
  stored id, a signed 64-bit value), \<open>create_booking\<close> rejects with \<open>HTTPException 409 ''Time slot already booked''\<close> exactly when some
  stored booking of the same resource with status \<open>''active''\<close> has
  \<open>start_at < end_at\<close> of the request and \<open>end_at > start_at\<close> of the request; that
  is then its only rejection, and a rejection leaves the store as it was. A non-empty
  request nested in an active booking of the resource is rejected so; a request that
  every active booking of the resource ends before or starts after (touching end
  points included) is stored as a new active row at the end of the table.
\<close>

theorem create_booking_conflict_iff:
  assumes "find (\<lambda>r. r_id r = resource_id booking) (resources db) = Some r"
    and "is_active r"
    and "in_int64 (resource_id booking)"
  shows "(fst (create_booking booking now db) = Inl (HTTPException 409 ''Time slot already booked'')
            \<longleftrightarrow> (\<exists>b\<in>set (bookings db). resource_id b = resource_id booking \<and>
                    status b = ''active'' \<and>
                    start_at b < end_at booking \<and> end_at b > start_at booking)) \<and>
         (isl (fst (create_booking booking now db)) \<longleftrightarrow>
            fst (create_booking booking now db) = Inl (HTTPException 409 ''Time slot already booked'')) \<and>
         (isl (fst (create_booking booking now db)) \<longrightarrow>
            snd (create_booking booking now db) = db) \<and>
         ((\<exists>b\<in>set (bookings db). resource_id b = resource_id booking \<and>
              status b = ''active'' \<and> start_at b \<le> start_at booking \<and>
              start_at booking < end_at booking \<and> end_at booking \<le> end_at b)
            \<longrightarrow> fst (create_booking booking now db) =
                  Inl (HTTPException 409 ''Time slot already booked'')) \<and>
         ((\<forall>b\<in>set (bookings db). resource_id b = resource_id booking \<and>
              status b = ''active'' \<longrightarrow> end_at b \<le> start_at booking \<or> end_at booking \<le> start_at b)
            \<longrightarrow> (\<exists>new. create_booking booking now db =
                          (Inr new, db\<lparr>bookings := bookings db @ [new]\<rparr>) \<and>
                        status new = ''active'' \<and> start_at new = start_at booking \<and>
                        end_at new = end_at booking \<and> resource_id new = resource_id booking))"
proof -
  let ?P = "\<lambda>b. resource_id b = resource_id booking \<and> status b = ''active'' \<and>
                 start_at b < end_at booking \<and> end_at b > start_at booking"
  show ?thesis
  proof (cases "find ?P (bookings db)")
    case None
    then have no: "\<forall>b\<in>set (bookings db). \<not> ?P b"
      by (simp add: find_None_iff_ball)
    have res: "create_booking booking now db =
        (Inr \<lparr>resource_id = resource_id booking, customer_name = customer_name booking,
              start_at = start_at booking, end_at = end_at booking,
              b_id = next_id (bookings db), status = ''active'', created_at = now\<rparr>,
         db\<lparr>bookings := bookings db @
              [\<lparr>resource_id = resource_id booking, customer_name = customer_name booking,
                start_at = start_at booking, end_at = end_at booking,
                b_id = next_id (bookings db), status = ''active'', created_at = now\<rparr>]\<rparr>)"
      using assms None by (simp add: create_booking_def Let_def)
    show ?thesis
      using no by (simp add: res) force
  next
    case (Some c)
    then have "c \<in> set (bookings db)" "?P c"
      by (auto simp: find_Some_iff)
    then have ex: "\<exists>b\<in>set (bookings db). ?P b" by blast
    have res: "create_booking booking now db =
                 (Inl (HTTPException 409 ''Time slot already booked''), db)"
      using assms Some by (simp add: create_booking_def)
    show ?thesis
      using ex by (simp add: res) force
  qed
qed

theorem create_booking_conflict_iff_witness:
  "find (\<lambda>r. r_id r = resource_id (ex_body 630 645)) (resources ex_one_booking) = Some ex_room \<and>
   is_active ex_room \<and>
   in_int64 (resource_id (ex_body 630 645)) \<and>
   create_booking (ex_body 630 645) 0 ex_one_booking =
     (Inl (HTTPException 409 ''Time slot already booked''), ex_one_booking) \<and>
   create_booking (ex_body 660 720) 0 ex_one_booking =
     (Inr (ex_row 2 660 720 ''active''), ex_store)"
proof -
  have i: "in_int64 (resource_id (ex_body 630 645))"
    by (simp add: in_int64_def ex_body_def)
  have f: "find (\<lambda>r. r_id r = resource_id (ex_body 630 645)) (resources ex_one_booking) = Some ex_room"
    by (simp add: ex_one_booking_def ex_body_def ex_room_def)
  have a: "is_active ex_room" by (simp add: ex_room_def)
  have nested: "create_booking (ex_body 630 645) 0 ex_one_booking =
     (Inl (HTTPException 409 ''Time slot already booked''), ex_one_booking)"
    by (simp add: create_booking_def in_int64_def ex_one_booking_def ex_body_def ex_row_def
          ex_room_def)
  have touching: "create_booking (ex_body 660 720) 0 ex_one_booking =
     (Inr (ex_row 2 660 720 ''active''), ex_store)"
    by (simp add: create_booking_def in_int64_def Let_def next_id_def ex_one_booking_def
          ex_body_def ex_row_def ex_room_def ex_store_def)
  show ?thesis
    using f a i nested touching create_booking_conflict_iff [OF f a i, of 0] by blast
qed

section \<open>The no-overlap invariant\<close>

lemma next_id_fresh: "next_id rows \<notin> b_id ` set rows"
proof
  assume "next_id rows \<in> b_id ` set rows"
  then have ne: "rows \<noteq> []" and le: "next_id rows \<le> Max (set (map b_id rows))"
    by auto
  then show False by (simp add: next_id_def)
qed

lemma create_booking_cases:
  "snd (create_booking booking now db) = db \<or>
   (find (\<lambda>b. resource_id b = resource_id booking \<and> status b = ''active'' \<and>
               start_at b < end_at booking \<and> end_at b > start_at booking) (bookings db) = None \<and>
    snd (create_booking booking now db) =
      db\<lparr>bookings := bookings db @
            [\<lparr>resource_id = resource_id booking, customer_name = customer_name booking,
              start_at = start_at booking, end_at = end_at booking,
              b_id = next_id (bookings db), status = ''active'', created_at = now\<rparr>]\<rparr>)"
  by (simp add: create_booking_def Let_def split: option.splits)

lemma create_booking_no_overlap:
  assumes "spec_no_overlap (bookings db)"
  shows "spec_no_overlap (bookings (snd (create_booking booking now db)))"
  using create_booking_cases [of booking now db]
proof
  assume "snd (create_booking booking now db) = db"
  with assms show ?thesis by simp
next
  assume new: "find (\<lambda>b. resource_id b = resource_id booking \<and> status b = ''active'' \<and>
               start_at b < end_at booking \<and> end_at b > start_at booking) (bookings db) = None \<and>
    snd (create_booking booking now db) =
      db\<lparr>bookings := bookings db @
            [\<lparr>resource_id = resource_id booking, customer_name = customer_name booking,
              start_at = start_at booking, end_at = end_at booking,
              b_id = next_id (bookings db), status = ''active'', created_at = now\<rparr>]\<rparr>"
  then have free: "\<forall>b\<in>set (bookings db).
      \<not> (resource_id b = resource_id booking \<and> status b = ''active'' \<and>
         start_at b < end_at booking \<and> end_at b > start_at booking)"
    by (simp add: find_None_iff_ball)
  from new assms free show ?thesis
    unfolding spec_no_overlap_def by auto
qed

lemma create_booking_distinct:
  assumes "distinct (map b_id (bookings db))"
  shows "distinct (map b_id (bookings (snd (create_booking booking now db))))"
  using create_booking_cases [of booking now db] assms next_id_fresh [of "bookings db"]
  by auto

lemma cancel_booking_rows:
  "bookings (snd (cancel_booking booking_id db)) = bookings db \<or>
   bookings (snd (cancel_booking booking_id db)) =
     map (\<lambda>b. if b_id b = booking_id then b\<lparr>status := ''canceled''\<rparr> else b) (bookings db)"
  by (simp add: cancel_booking_def split: option.splits)

lemma cancel_booking_no_overlap:
  assumes "spec_no_overlap (bookings db)"
  shows "spec_no_overlap (bookings (snd (cancel_booking booking_id db)))"
  using cancel_booking_rows [of booking_id db]
proof
  assume "bookings (snd (cancel_booking booking_id db)) = bookings db"
  with assms show ?thesis by simp
next
  assume upd: "bookings (snd (cancel_booking booking_id db)) =
     map (\<lambda>b. if b_id b = booking_id then b\<lparr>status := ''canceled''\<rparr> else b) (bookings db)"
  have old: "B \<in> set (bookings db)"
    if "B \<in> set (bookings (snd (cancel_booking booking_id db)))" "status B = ''active''" for B
    using that unfolding upd by (auto split: if_splits)
  show ?thesis
    unfolding spec_no_overlap_def
  proof (intro ballI impI)
    fix B1 B2
    assume "B1 \<in> set (bookings (snd (cancel_booking booking_id db)))"
      and "B2 \<in> set (bookings (snd (cancel_booking booking_id db)))"
      and h: "B1 \<noteq> B2 \<and> resource_id B1 = resource_id B2 \<and>
           status B1 = ''active'' \<and> status B2 = ''active''"
    then have "B1 \<in> set (bookings db)" "B2 \<in> set (bookings db)"
      using old by blast+
    with assms h show "\<not> (start_at B1 < end_at B2 \<and> start_at B2 < end_at B1)"
      unfolding spec_no_overlap_def by blast
  qed
qed

lemma cancelled_ids:
  "map b_id (map (\<lambda>b. if b_id b = booking_id then b\<lparr>status := ''canceled''\<rparr> else b) rows) =
   map b_id rows"
  by (induction rows) auto

lemma cancel_booking_distinct:
  assumes "distinct (map b_id (bookings db))"
  shows "distinct (map b_id (bookings (snd (cancel_booking booking_id db))))"
  using cancel_booking_rows [of booking_id db]
proof
  assume "bookings (snd (cancel_booking booking_id db)) = bookings db"
  with assms show ?thesis by simp
next
  assume "bookings (snd (cancel_booking booking_id db)) =
     map (\<lambda>b. if b_id b = booking_id then b\<lparr>status := ''canceled''\<rparr> else b) (bookings db)"
  with assms show ?thesis by (simp only: cancelled_ids)
qed

lemma post_bookings_cases:
  "snd (post_bookings body now db) = db \<or>
   (\<exists>booking. snd (post_bookings body now db) = snd (create_booking booking now db))"
  by (auto simp: post_bookings_def split: sum.splits)

lemma step_invariant:
  assumes "spec_no_overlap (bookings db)" and "distinct (map b_id (bookings db))"
  shows "spec_no_overlap (bookings (step req db)) \<and> distinct (map b_id (bookings (step req db)))"
proof (cases req)
  case (CreateBooking body now)
  with assms post_bookings_cases [of body now db] show ?thesis
    by (auto simp: create_booking_no_overlap create_booking_distinct)
next
  case (CancelBooking booking_id)
  with assms show ?thesis
    by (simp add: cancel_booking_no_overlap cancel_booking_distinct)
qed

lemma run_invariant:
  "spec_no_overlap (bookings db) \<Longrightarrow> distinct (map b_id (bookings db)) \<Longrightarrow>
   spec_no_overlap (bookings (run reqs db)) \<and> distinct (map b_id (bookings (run reqs db)))"
  unfolding run_def
proof (induction reqs arbitrary: db)
  case Nil
  then show ?case by simp
next
  case (Cons req reqs)
  from step_invariant [OF Cons.prems, of req]
  show ?case using Cons.IH [of "step req db"] by simp
qed

text \<open>
  Claim C1: start from any store without bookings (whatever resources it holds) and run
  any sequence of \<^verbatim>\<open>POST /bookings\<close> and cancel requests. In the store reached, the
  booking ids are pairwise different, and two different active bookings of one resource
  never overlap as half-open intervals. (Rows with different ids are different rows, so
  this covers every pair with \<open>B1.id \<noteq> B2.id\<close>.)
\<close>

theorem active_bookings_never_overlap:
  assumes "bookings db0 = []"
  shows "distinct (map b_id (bookings (run reqs db0))) \<and>
         (\<forall>B1\<in>set (bookings (run reqs db0)). \<forall>B2\<in>set (bookings (run reqs db0)).
            B1 \<noteq> B2 \<and> resource_id B1 = resource_id B2 \<and>
            status B1 = ''active'' \<and> status B2 = ''active'' \<longrightarrow>
            \<not> (start_at B1 < end_at B2 \<and> start_at B2 < end_at B1))"
proof -
  have "spec_no_overlap (bookings db0)" "distinct (map b_id (bookings db0))"
    using assms by (simp_all add: spec_no_overlap_def)
  from run_invariant [OF this, of reqs] show ?thesis
    unfolding spec_no_overlap_def by blast
qed

theorem active_bookings_never_overlap_witness:
  "bookings ex_empty = [] \<and>
   run ex_requests ex_empty = ex_store \<and>
   distinct (map b_id (bookings ex_store)) \<and>
   \<not> (start_at (ex_row 1 600 660 ''active'') < end_at (ex_row 2 660 720 ''active'') \<and>
      start_at (ex_row 2 660 720 ''active'') < end_at (ex_row 1 600 660 ''active''))"
proof -
  have e: "bookings ex_empty = []" by (simp add: ex_empty_def)
  have r: "run ex_requests ex_empty = ex_store"
    by (simp add: run_def ex_requests_def ex_empty_def ex_store_def post_bookings_def
          validate_BookingCreate_def check_dates_def create_booking_def in_int64_def Let_def
          next_id_def
          ex_body_def ex_row_def ex_room_def)
  show ?thesis
    using e r active_bookings_never_overlap [OF e, of ex_requests]
    by (simp add: ex_store_def ex_row_def)
qed

section \<open>The slot loop of \<open>get_availability\<close>\<close>

lemma is_free_iff:
  "is_free current_slot slot_end bs \<longleftrightarrow>
     (\<forall>b\<in>set bs. \<not> (current_slot < end_at b \<and> start_at b < slot_end))"
  by (induction bs) auto

lemma add_minutes_valid:
  "valid_datetime (d + m * minute_us) \<Longrightarrow> add_minutes d m = Inr (d + m * minute_us)"
  by (simp add: add_minutes_def)

lemma add_minutes_cases:
  "add_minutes d m = Inl OverflowError \<or> add_minutes d m = Inr (d + m * minute_us)"
  by (simp add: add_minutes_def Let_def)

lemma upt_grid:
  "map f [0 ..< Suc k] = f 0 # map (\<lambda>j. f (Suc j)) [0 ..< k]"
  by (simp only: upt_conv_Cons [of 0 "Suc k"] map_Suc_upt [symmetric] list.map map_map comp_def)

lemma slot_loop_grid:
  assumes len: "len = slot_minutes * minute_us" "0 < len"
  shows "0 \<le> cur \<Longrightarrow> n = 0 \<or> cur + int n * len \<le> day_end \<Longrightarrow>
         day_end < cur + (int n + 1) * len \<Longrightarrow> cur + (int n + 1) * len \<le> datetime_max \<Longrightarrow>
         slot_loop slot_minutes day_end bs cur acc =
           Some (Inr (acc @ filter (\<lambda>c. is_free (fst c) (snd c) bs)
                              (map (\<lambda>k. (cur + int k * len, cur + (int k + 1) * len)) [0 ..< n])))"
proof (induction n arbitrary: cur acc)
  case 0
  then have "add_minutes cur slot_minutes = Inr (cur + len)"
    using len by (simp add: add_minutes_def valid_datetime_def datetime_min_def)
  with 0 show ?case
    by (subst slot_loop.simps) simp
next
  case (Suc k)
  define X where "X = int k * len"
  have X: "0 \<le> X" using len by (simp add: X_def)
  have expand: "int (Suc k) * len = len + X" "(int (Suc k) + 1) * len = len + len + X"
    by (simp_all add: X_def algebra_simps)
  from Suc.prems(2) have le: "cur + len \<le> day_end"
    using X unfolding expand by linarith
  from Suc.prems(4) have "cur + len \<le> datetime_max"
    using X len(2) unfolding expand by linarith
  then have add: "add_minutes cur slot_minutes = Inr (cur + len)"
    using len Suc.prems(1) by (simp add: add_minutes_def valid_datetime_def datetime_min_def)
  let ?acc = "if is_free cur (cur + len) bs then acc @ [(cur, cur + len)] else acc"
  have step: "slot_loop slot_minutes day_end bs cur acc =
                slot_loop slot_minutes day_end bs (cur + len) ?acc"
    using add le by (subst slot_loop.simps) simp
  have rec: "slot_loop slot_minutes day_end bs (cur + len) ?acc =
      Some (Inr (?acc @ filter (\<lambda>c. is_free (fst c) (snd c) bs)
         (map (\<lambda>j. (cur + len + int j * len, cur + len + (int j + 1) * len)) [0 ..< k])))"
  proof (rule Suc.IH)
    show "0 \<le> cur + len" using Suc.prems(1) len by simp
    show "k = 0 \<or> cur + len + int k * len \<le> day_end"
      using Suc.prems(2) by (simp add: algebra_simps)
    show "day_end < cur + len + (int k + 1) * len"
      using Suc.prems(3) by (simp add: algebra_simps)
    show "cur + len + (int k + 1) * len \<le> datetime_max"
      using Suc.prems(4) by (simp add: algebra_simps)
  qed
  have grid: "map (\<lambda>k. (cur + int k * len, cur + (int k + 1) * len)) [0 ..< Suc k] =
      (cur, cur + len) #
      map (\<lambda>j. (cur + len + int j * len, cur + len + (int j + 1) * len)) [0 ..< k]"
    by (subst upt_grid) (simp add: algebra_simps)
  show ?case
    unfolding step rec grid by simp
qed


lemma grid_count:
  fixes len :: int
  assumes "0 < len" and "n = nat ((day_end - cur) div len)"
  shows "n = 0 \<or> cur + int n * len \<le> day_end" and "day_end < cur + (int n + 1) * len"
proof -
  define q where "q = (day_end - cur) div len"
  define r where "r = (day_end - cur) mod len"
  have split: "day_end - cur = q * len + r"
    by (simp add: q_def r_def)
  have r: "0 \<le> r" "r < len"
    using assms(1) by (simp_all add: r_def)
  show "n = 0 \<or> cur + int n * len \<le> day_end"
  proof (cases "0 \<le> q")
    case True
    then have "int n = q" using assms(2) by (simp add: q_def)
    with split r show ?thesis by simp
  next
    case False
    then show ?thesis using assms(2) by (simp add: q_def)
  qed
  show "day_end < cur + (int n + 1) * len"
  proof (cases "0 \<le> q")
    case True
    then have "int n = q" using assms(2) by (simp add: q_def)
    with split r show ?thesis by (simp add: algebra_simps)
  next
    case False
    then have n: "int n = 0" using assms(2) by (simp add: q_def)
    from False have "q + 1 \<le> 0" by simp
    then have "(q + 1) * len \<le> 0"
      using assms(1) by (simp add: mult_le_0_iff)
    then have "q * len + len \<le> 0" by (simp add: algebra_simps)
    with split r assms(1) have "day_end - cur < len" by linarith
    with n show ?thesis by simp
  qed
qed

lemma slot_loop_bounded_returns:
  fixes len :: int
  assumes "len = slot_minutes * minute_us" "0 < len"
  shows "day_end < cur + (int n + 1) * len \<Longrightarrow>
         \<exists>r. slot_loop_bounded n slot_minutes day_end bs cur acc = Some r"
proof (induction n arbitrary: cur acc)
  case 0
  from add_minutes_cases [of cur slot_minutes] show ?case
    using 0 assms by auto
next
  case (Suc k)
  from add_minutes_cases [of cur slot_minutes] show ?case
  proof
    assume "add_minutes cur slot_minutes = Inl OverflowError"
    then show ?thesis by simp
  next
    assume add: "add_minutes cur slot_minutes = Inr (cur + slot_minutes * minute_us)"
    have "day_end < cur + len + (int k + 1) * len"
      using Suc.prems by (simp add: algebra_simps)
    from Suc.IH [OF this] show ?thesis
      using add assms(1) by simp
  qed
qed

lemma slot_loop_bounded_sound:
  "slot_loop_bounded n slot_minutes day_end bs cur acc = Some r \<Longrightarrow>
   slot_loop slot_minutes day_end bs cur acc = Some r"
proof (induction n arbitrary: cur acc)
  case 0
  then show ?case
    by (subst slot_loop.simps) (auto split: sum.splits if_splits)
next
  case (Suc k)
  show ?case
  proof (cases "add_minutes cur slot_minutes")
    case (Inl e)
    with Suc.prems show ?thesis by (subst slot_loop.simps) simp
  next
    case (Inr slot_end)
    show ?thesis
    proof (cases "slot_end \<le> day_end")
      case True
      with Inr Suc.prems have
        "slot_loop_bounded k slot_minutes day_end bs slot_end
           (if is_free cur slot_end bs then acc @ [(cur, slot_end)] else acc) = Some r"
        by simp
      from Suc.IH [OF this] Inr True show ?thesis
        by (subst slot_loop.simps) simp
    next
      case False
      with Inr Suc.prems show ?thesis by (subst slot_loop.simps) simp
    qed
  qed
qed

lemma slot_loop_returns_nonzero:
  assumes "slot_loop m day_end bs cur acc = Some y"
  shows "\<not> (m = 0 \<and> valid_datetime cur \<and> cur \<le> day_end)"
proof (rule slot_loop.raw_induct
         [where P = "\<lambda>m day_end bs cur acc y. \<not> (m = 0 \<and> valid_datetime cur \<and> cur \<le> day_end)",
          OF _ assms])
  fix f :: "int \<Rightarrow> datetime \<Rightarrow> Booking list \<Rightarrow> datetime \<Rightarrow> slot list \<Rightarrow> (error + slot list) option"
  fix m day_end bs cur acc y
  assume IH: "\<And>m day_end bs cur acc y. f m day_end bs cur acc = Some y \<Longrightarrow>
                \<not> (m = 0 \<and> valid_datetime cur \<and> cur \<le> day_end)"
    and body: "(case add_minutes cur m of
                  Inl e \<Rightarrow> Some (Inl e)
                | Inr slot_end \<Rightarrow>
                    if slot_end \<le> day_end
                    then f m day_end bs slot_end
                           (if is_free cur slot_end bs then acc @ [(cur, slot_end)] else acc)
                    else Some (Inr acc)) = Some y"
  show "\<not> (m = 0 \<and> valid_datetime cur \<and> cur \<le> day_end)"
  proof
    assume h: "m = 0 \<and> valid_datetime cur \<and> cur \<le> day_end"
    then have "add_minutes cur m = Inr cur"
      by (simp add: add_minutes_def)
    with body h have "f m day_end bs cur
        (if is_free cur cur bs then acc @ [(cur, cur)] else acc) = Some y"
      by simp
    from IH [OF this] h show False by simp
  qed
qed

lemma slot_loop_zero_step_diverges:
  assumes "valid_datetime cur" and "cur \<le> day_end"
  shows "slot_loop 0 day_end bs cur acc = None"
proof (rule ccontr)
  assume "slot_loop 0 day_end bs cur acc \<noteq> None"
  then obtain y where "slot_loop 0 day_end bs cur acc = Some y" by auto
  from slot_loop_returns_nonzero [OF this] assms show False by simp
qed

lemma combine_valid:
  assumes "valid_datetime d"
  shows "0 \<le> combine (date_of d) (time_of s)"
    and "combine (date_of d) (time_of s) \<le> datetime_max"
    and "combine (date_of d) (time_of s) < date_of d * day_us + day_us"
    and "date_of d * day_us + day_us \<le> datetime_max + 1"
proof -
  have d0: "0 \<le> date_of d"
    using assms by (simp add: valid_datetime_def datetime_min_def date_of_def day_us_def pos_imp_zdiv_nonneg_iff)
  have "d < 3652059 * day_us"
    using assms by (simp add: valid_datetime_def datetime_max_def)
  then have "date_of d < 3652059"
    by (simp add: date_of_def day_us_def div_less_iff_less_mult)
  then have d1: "date_of d * day_us + day_us \<le> 3652059 * day_us"
    by (simp add: day_us_def)
  have t: "0 \<le> time_of s" "time_of s < day_us"
    by (simp_all add: time_of_def day_us_def)
  have "0 \<le> date_of d * day_us" using d0 by (simp add: day_us_def)
  with t show "0 \<le> combine (date_of d) (time_of s)"
    by (simp add: combine_def)
  from t show "combine (date_of d) (time_of s) < date_of d * day_us + day_us"
    by (simp add: combine_def)
  with d1 show "combine (date_of d) (time_of s) \<le> datetime_max"
    by (simp add: datetime_max_def)
  from d1 show "date_of d * day_us + day_us \<le> datetime_max + 1"
    by (simp add: datetime_max_def)
qed

lemma free_slots_eq:
  "filter (\<lambda>c. is_free (fst c) (snd c)
                 (sort_key start_at
                    (filter (\<lambda>b. resource_id b = rid \<and> status b = ''active'' \<and>
                                  end_at b > day_start \<and> start_at b < day_end) (bookings db)))) cs =
   filter (spec_free (spec_loaded rid day_start day_end db)) cs"
  by (rule filter_cong)
     (auto simp add: is_free_iff spec_free_def spec_loaded_def spec_overlaps_def list_all_iff)

lemma candidate_starts_sorted:
  "0 < len \<Longrightarrow> sorted (map fst (spec_candidate_slots day_start day_end len))"
  by (simp add: spec_candidate_slots_def comp_def sorted_iff_nth_mono mult_right_mono)

lemma get_availability_parsed:
  assumes "strptime date ''%Y-%m-%d'' = Some d"
    and "strptime work_start ''%H:%M'' = Some s"
    and "strptime work_end ''%H:%M'' = Some e"
  shows "get_availability strptime rid date slot_minutes work_start work_end db =
     (if \<not> in_int64 rid then Some (Inl OverflowError)
      else
      case slot_loop slot_minutes (combine (date_of d) (time_of e))
             (sort_key start_at
                (filter (\<lambda>b. resource_id b = rid \<and> status b = ''active'' \<and>
                              end_at b > combine (date_of d) (time_of s) \<and>
                              start_at b < combine (date_of d) (time_of e)) (bookings db)))
             (combine (date_of d) (time_of s)) [] of
        None \<Rightarrow> None
      | Some (Inl err) \<Rightarrow> Some (Inl err)
      | Some (Inr slots) \<Rightarrow>
          Some (Inr \<lparr>resp_resource_id = rid, resp_date = date, resp_available_slots = slots\<rparr>))"
  using assms by (simp add: get_availability_def Let_def)

lemma get_availability_general:
  assumes "strptime date ''%Y-%m-%d'' = Some d"
    and "strptime work_start ''%H:%M'' = Some s"
    and "strptime work_end ''%H:%M'' = Some e"
    and "valid_datetime d" and "0 < slot_minutes"
    and "day_start = combine (date_of d) (time_of s)"
    and "day_end = combine (date_of d) (time_of e)"
    and "len = slot_minutes * minute_us"
    and "in_int64 rid"
    and "day_start + (int (nat ((day_end - day_start) div len)) + 1) * len \<le> datetime_max"
  shows "get_availability strptime rid date slot_minutes work_start work_end db =
           Some (Inr \<lparr>resp_resource_id = rid, resp_date = date,
                      resp_available_slots =
                        filter (spec_free (spec_loaded rid day_start day_end db))
                               (spec_candidate_slots day_start day_end len)\<rparr>)"
proof -
  have len: "0 < len" using assms(5,8) by (simp add: minute_us_def)
  define n where "n = nat ((day_end - day_start) div len)"
  have start: "0 \<le> day_start"
    unfolding assms(6) using assms(4) by (rule combine_valid)
  let ?bs = "sort_key start_at
                (filter (\<lambda>b. resource_id b = rid \<and> status b = ''active'' \<and>
                              end_at b > day_start \<and> start_at b < day_end) (bookings db))"
  have "slot_loop slot_minutes day_end ?bs day_start [] =
          Some (Inr ([] @ filter (\<lambda>c. is_free (fst c) (snd c) ?bs)
             (map (\<lambda>k. (day_start + int k * len, day_start + (int k + 1) * len)) [0 ..< n])))"
    using assms(8) len start grid_count [OF len n_def] assms(10) [folded n_def]
    by (rule slot_loop_grid)
  then have "slot_loop slot_minutes day_end ?bs day_start [] =
          Some (Inr (filter (spec_free (spec_loaded rid day_start day_end db))
                            (spec_candidate_slots day_start day_end len)))"
    by (simp add: free_slots_eq spec_candidate_slots_def n_def)
  then show ?thesis
    unfolding get_availability_parsed [OF assms(1-3)] assms(6) [symmetric] assms(7) [symmetric]
    using assms(9) by simp
qed


lemma working_day_grid:
  assumes "time_of s = 540 * minute_us" and "time_of e = 1080 * minute_us"
    and "day_start = combine (date_of d) (time_of s)"
    and "day_end = combine (date_of d) (time_of e)"
  shows "spec_candidate_slots day_start day_end (30 * minute_us) =
           map (\<lambda>k. (day_start + int k * (30 * minute_us),
                      day_start + (int k + 1) * (30 * minute_us))) [0 ..< 18]"
    and "day_end = day_start + 18 * (30 * minute_us)"
proof -
  show e: "day_end = day_start + 18 * (30 * minute_us)"
    using assms by (simp add: combine_def)
  have "(day_end - day_start) div (30 * minute_us) = 18"
    unfolding e by (simp add: minute_us_def)
  then show "spec_candidate_slots day_start day_end (30 * minute_us) =
           map (\<lambda>k. (day_start + int k * (30 * minute_us),
                      day_start + (int k + 1) * (30 * minute_us))) [0 ..< 18]"
    by (simp add: spec_candidate_slots_def)
qed


text \<open>
  The grid that \<open>get_availability\<close> returns. Let the three strings parse, the date being
  a valid datetime, let \<open>slot_minutes\<close> be positive, \<open>day_start\<close> and \<open>day_end\<close> the
  combined datetimes, \<open>len\<close> the slot length, and the resource id a signed 64-bit value.
  Then
  \<^item> whenever the end of the first candidate slot that does not fit before \<open>day_end\<close>
    is still a representable datetime, \<open>get_availability\<close> returns exactly the candidate
    slots of the specification that overlap no loaded active booking, in the order of the
    grid;
  \<^item> that list is ascending in its start times;
  \<^item> every candidate slot is exactly \<open>len\<close> long and lies inside the window, so a
    trailing partial slot is never a candidate;
  \<^item> with work_start 09:00, work_end 18:00, 30-minute slots and no loaded booking, the
    route returns 18 slots of 30 minutes, the first starting at \<open>day_start\<close> and the
    last ending at \<open>day_end\<close> (on every date: no overflow can occur here).
\<close>

lemma get_availability_grid:
  assumes "strptime date ''%Y-%m-%d'' = Some d"
    and "strptime work_start ''%H:%M'' = Some s"
    and "strptime work_end ''%H:%M'' = Some e"
    and "valid_datetime d" and "0 < slot_minutes"
    and "day_start = combine (date_of d) (time_of s)"
    and "day_end = combine (date_of d) (time_of e)"
    and "len = slot_minutes * minute_us"
    and "in_int64 rid"
  shows "(day_start + (int (nat ((day_end - day_start) div len)) + 1) * len \<le> datetime_max \<longrightarrow>
            get_availability strptime rid date slot_minutes work_start work_end db =
              Some (Inr \<lparr>resp_resource_id = rid, resp_date = date,
                         resp_available_slots =
                           filter (spec_free (spec_loaded rid day_start day_end db))
                                  (spec_candidate_slots day_start day_end len)\<rparr>)) \<and>
         sorted (map fst (filter (spec_free (spec_loaded rid day_start day_end db))
                                 (spec_candidate_slots day_start day_end len))) \<and>
         (\<forall>c\<in>set (spec_candidate_slots day_start day_end len).
            snd c - fst c = len \<and> day_start \<le> fst c \<and> snd c \<le> day_end) \<and>
         (time_of s = 540 * minute_us \<and> time_of e = 1080 * minute_us \<and> slot_minutes = 30 \<and>
          spec_loaded rid day_start day_end db = [] \<longrightarrow>
            (\<exists>slots. get_availability strptime rid date slot_minutes work_start work_end db =
                        Some (Inr \<lparr>resp_resource_id = rid, resp_date = date,
                                   resp_available_slots = slots\<rparr>) \<and>
                      length slots = 18 \<and>
                      fst (hd slots) = day_start \<and> snd (last slots) = day_end \<and>
                      (\<forall>c\<in>set slots. snd c - fst c = 30 * minute_us)))"
proof (intro conjI impI)
  have len: "0 < len" using assms(5,8) by (simp add: minute_us_def)
  assume "day_start + (int (nat ((day_end - day_start) div len)) + 1) * len \<le> datetime_max"
  with assms show "get_availability strptime rid date slot_minutes work_start work_end db =
              Some (Inr \<lparr>resp_resource_id = rid, resp_date = date,
                         resp_available_slots =
                           filter (spec_free (spec_loaded rid day_start day_end db))
                                  (spec_candidate_slots day_start day_end len)\<rparr>)"
    by (rule get_availability_general)
next
  have len: "0 < len" using assms(5,8) by (simp add: minute_us_def)
  then have "sorted (map fst (spec_candidate_slots day_start day_end len))"
    by (rule candidate_starts_sorted)
  then show "sorted (map fst (filter (spec_free (spec_loaded rid day_start day_end db))
                                 (spec_candidate_slots day_start day_end len)))"
    by (rule sorted_filter)
next
  have len: "0 < len" using assms(5,8) by (simp add: minute_us_def)
  show "\<forall>c\<in>set (spec_candidate_slots day_start day_end len).
            snd c - fst c = len \<and> day_start \<le> fst c \<and> snd c \<le> day_end"
  proof
    fix c assume "c \<in> set (spec_candidate_slots day_start day_end len)"
    then obtain k where k: "k < nat ((day_end - day_start) div len)"
      and c: "c = (day_start + int k * len, day_start + (int k + 1) * len)"
      by (auto simp: spec_candidate_slots_def)
    define q where "q = (day_end - day_start) div len"
    have "int k + 1 \<le> q" using k by (simp add: q_def)
    then have "(int k + 1) * len \<le> q * len"
      using len by (simp only: mult_le_cancel_right) simp
    moreover have "q * len + (day_end - day_start) mod len = day_end - day_start"
      by (simp add: q_def)
    moreover have "0 \<le> (day_end - day_start) mod len"
      using len by simp
    ultimately have "day_start + (int k + 1) * len \<le> day_end" by linarith
    moreover have "0 \<le> int k * len" using len by simp
    ultimately show "snd c - fst c = len \<and> day_start \<le> fst c \<and> snd c \<le> day_end"
      by (simp add: c algebra_simps)
  qed
next
  assume special: "time_of s = 540 * minute_us \<and> time_of e = 1080 * minute_us \<and>
      slot_minutes = 30 \<and> spec_loaded rid day_start day_end db = []"
  then have l30: "len = 30 * minute_us" using assms(8) by simp
  from special have ts: "time_of s = 540 * minute_us" and te: "time_of e = 1080 * minute_us"
    by simp_all
  note grid = working_day_grid(1) [OF ts te assms(6) assms(7)]
  note e = working_day_grid(2) [OF ts te assms(6) assms(7)]
  have "(day_end - day_start) div len = 18"
    unfolding e l30 by (simp add: minute_us_def)
  then have n: "int (nat ((day_end - day_start) div len)) + 1 = 19" by simp
  have "day_start + 19 * len = date_of d * day_us + 1110 * minute_us"
    using special by (simp add: assms(6) l30 combine_def)
  also have "\<dots> < date_of d * day_us + day_us"
    by (simp add: minute_us_def day_us_def)
  also have "\<dots> \<le> datetime_max + 1"
    using assms(4) by (rule combine_valid)
  finally have fits:
    "day_start + (int (nat ((day_end - day_start) div len)) + 1) * len \<le> datetime_max"
    unfolding n by simp
  let ?slots = "spec_candidate_slots day_start day_end (30 * minute_us)"
  have res: "get_availability strptime rid date slot_minutes work_start work_end db =
          Some (Inr \<lparr>resp_resource_id = rid, resp_date = date, resp_available_slots = ?slots\<rparr>)"
    using get_availability_general [OF assms fits, where db = db] special
    by (simp add: l30 spec_free_def)
  have "length ?slots = 18" by (simp add: grid)
  moreover have "fst (hd ?slots) = day_start"
    by (simp add: grid hd_map upt_conv_Cons)
  moreover have "snd (last ?slots) = day_start + 18 * (30 * minute_us)"
    unfolding grid by (simp add: last_map)
  then have "snd (last ?slots) = day_end"
    by (simp only: e)
  moreover have "\<forall>c\<in>set ?slots. snd c - fst c = 30 * minute_us"
    unfolding grid by (auto simp add: algebra_simps)
  ultimately show "\<exists>slots. get_availability strptime rid date slot_minutes work_start work_end db =
                        Some (Inr \<lparr>resp_resource_id = rid, resp_date = date,
                                   resp_available_slots = slots\<rparr>) \<and>
                      length slots = 18 \<and>
                      fst (hd slots) = day_start \<and> snd (last slots) = day_end \<and>
                      (\<forall>c\<in>set slots. snd c - fst c = 30 * minute_us)"
    using res by blast
qed

text \<open>
  Two runs on 2024-01-01: 09:00 to 11:00 with a booking from 10:00 to 10:30, and the
  whole working day on an empty schedule.
\<close>

lemma get_availability_grid_example:
  "ex_strptime ''2024-01-01'' ''%Y-%m-%d'' = Some ex_day \<and>
   ex_strptime ''09:00'' ''%H:%M'' = Some (693595 * day_us + 540 * minute_us) \<and>
   ex_strptime ''11:00'' ''%H:%M'' = Some (693595 * day_us + 660 * minute_us) \<and>
   ex_strptime ''18:00'' ''%H:%M'' = Some (693595 * day_us + 1080 * minute_us) \<and>
   valid_datetime ex_day \<and> in_int64 1 \<and>
   ex_at 540 + (int (nat ((ex_at 660 - ex_at 540) div (30 * minute_us))) + 1) * (30 * minute_us)
     \<le> datetime_max \<and>
   get_availability ex_strptime 1 ''2024-01-01'' 30 ''09:00'' ''11:00'' ex_schedule =
     Some (Inr \<lparr>resp_resource_id = 1, resp_date = ''2024-01-01'',
                resp_available_slots =
                  [(ex_at 540, ex_at 570), (ex_at 570, ex_at 600), (ex_at 630, ex_at 660)]\<rparr>) \<and>
   filter (spec_free (spec_loaded 1 (ex_at 540) (ex_at 660) ex_schedule))
          (spec_candidate_slots (ex_at 540) (ex_at 660) (30 * minute_us)) =
     [(ex_at 540, ex_at 570), (ex_at 570, ex_at 600), (ex_at 630, ex_at 660)] \<and>
   spec_loaded 1 (ex_at 540) (ex_at 1080) ex_empty = [] \<and>
   (\<exists>slots. get_availability ex_strptime 1 ''2024-01-01'' 30 ''09:00'' ''18:00'' ex_empty =
               Some (Inr \<lparr>resp_resource_id = 1, resp_date = ''2024-01-01'',
                          resp_available_slots = slots\<rparr>) \<and>
             length slots = 18 \<and> fst (hd slots) = ex_at 540 \<and> snd (last slots) = ex_at 1080)"
proof -
  have p1: "ex_strptime ''2024-01-01'' ''%Y-%m-%d'' = Some ex_day"
    and p2: "ex_strptime ''09:00'' ''%H:%M'' = Some (693595 * day_us + 540 * minute_us)"
    and p3: "ex_strptime ''11:00'' ''%H:%M'' = Some (693595 * day_us + 660 * minute_us)"
    and p4: "ex_strptime ''18:00'' ''%H:%M'' = Some (693595 * day_us + 1080 * minute_us)"
    by (simp_all add: ex_strptime_def)
  have v: "valid_datetime ex_day"
    by (simp add: valid_datetime_def ex_day_def datetime_min_def datetime_max_def day_us_def)
  have pos: "(0::int) < 30" by simp
  have i: "in_int64 1" by (simp add: in_int64_def)
  have t9: "ex_at 540 = combine (date_of ex_day) (time_of (693595 * day_us + 540 * minute_us))"
    and t11: "ex_at 660 = combine (date_of ex_day) (time_of (693595 * day_us + 660 * minute_us))"
    and t18: "ex_at 1080 = combine (date_of ex_day) (time_of (693595 * day_us + 1080 * minute_us))"
    by (simp_all add: ex_at_def ex_day_def combine_def date_of_def time_of_def day_us_def
          minute_us_def)
  have fits: "ex_at 540 +
      (int (nat ((ex_at 660 - ex_at 540) div (30 * minute_us))) + 1) * (30 * minute_us)
        \<le> datetime_max"
    by (simp add: ex_at_def ex_day_def datetime_max_def day_us_def minute_us_def)
  have m9: "time_of (693595 * day_us + 540 * minute_us) = 540 * minute_us"
    and m18: "time_of (693595 * day_us + 1080 * minute_us) = 1080 * minute_us"
    by (simp_all add: time_of_def day_us_def minute_us_def)
  have empty: "spec_loaded 1 (ex_at 540) (ex_at 1080) ex_empty = []"
    by (simp add: spec_loaded_def ex_empty_def)
  have run: "get_availability ex_strptime 1 ''2024-01-01'' 30 ''09:00'' ''11:00'' ex_schedule =
     Some (Inr \<lparr>resp_resource_id = 1, resp_date = ''2024-01-01'',
                resp_available_slots =
                  [(ex_at 540, ex_at 570), (ex_at 570, ex_at 600), (ex_at 630, ex_at 660)]\<rparr>)"
    by code_simp
  note morning = get_availability_grid [OF p1 p2 p3 v pos t9 t11 refl i, where db = ex_schedule]
  note full_day = get_availability_grid [OF p1 p2 p4 v pos t9 t18 refl i, where db = ex_empty]
  from morning fits run
  have slots: "filter (spec_free (spec_loaded 1 (ex_at 540) (ex_at 660) ex_schedule))
          (spec_candidate_slots (ex_at 540) (ex_at 660) (30 * minute_us)) =
     [(ex_at 540, ex_at 570), (ex_at 570, ex_at 600), (ex_at 630, ex_at 660)]"
    by simp
  from full_day m9 m18 empty
  have day: "\<exists>slots. get_availability ex_strptime 1 ''2024-01-01'' 30 ''09:00'' ''18:00'' ex_empty =
               Some (Inr \<lparr>resp_resource_id = 1, resp_date = ''2024-01-01'',
                          resp_available_slots = slots\<rparr>) \<and>
             length slots = 18 \<and> fst (hd slots) = ex_at 540 \<and> snd (last slots) = ex_at 1080"
    by blast
  from p1 p2 p3 p4 v i fits run slots empty day show ?thesis by blast
qed

text \<open>
  A resource id that does not fit the integer column cannot be bound: after the three
  strings have parsed, the bookings query raises.
\<close>

lemma get_availability_unbound_id:
  assumes "strptime date ''%Y-%m-%d'' = Some d"
    and "strptime work_start ''%H:%M'' = Some s"
    and "strptime work_end ''%H:%M'' = Some e"
    and "\<not> in_int64 rid"
  shows "get_availability strptime rid date slot_minutes work_start work_end db =
           Some (Inl OverflowError)"
  using assms(4) unfolding get_availability_parsed [OF assms(1-3)] by simp

text \<open>
  Claim C3: for every parseable date and window and every positive \<open>slot_minutes\<close> the
  route returns the free slots of the grid. The loop condition adds the slot length to
  \<open>current_slot\<close> before comparing with \<open>day_end\<close>. On 2024-01-01 with the window 09:00
  to 18:00 and \<open>slot_minutes\<close> = 5000000000 that sum lies past year 9999: the addition
  raises \<^verbatim>\<open>OverflowError\<close>, which the route does not handle, and nothing is
  returned. The grid of the claim is empty there (no slot of that length fits the
  window), so the claim has the route return the empty list of slots.
\<close>

theorem get_availability_large_slot_raises:
  "get_availability ex_strptime 1 ''2024-01-01'' 5000000000 ''09:00'' ''18:00'' ex_empty =
     Some (Inl OverflowError) \<and>
   filter (spec_free (spec_loaded 1 (ex_at 540) (ex_at 1080) ex_empty))
          (spec_candidate_slots (ex_at 540) (ex_at 1080) (5000000000 * minute_us)) = []"
proof -
  have "get_availability ex_strptime 1 ''2024-01-01'' 5000000000 ''09:00'' ''18:00'' ex_empty =
          Some (Inl OverflowError)"
    by (simp add: get_availability_def ex_strptime_def ex_empty_def ex_day_def Let_def
          in_int64_def slot_loop.simps [of 5000000000] add_minutes_def valid_datetime_def
          datetime_max_def datetime_min_def combine_def date_of_def time_of_def day_us_def
          minute_us_def)
  moreover have "spec_candidate_slots (ex_at 540) (ex_at 1080) (5000000000 * minute_us) = []"
    by (simp add: spec_candidate_slots_def ex_at_def minute_us_def)
  ultimately show ?thesis by simp
qed

section \<open>Termination of the slot loop\<close>

lemma add_minutes_Inr:
  "add_minutes d m = Inr r \<Longrightarrow> r = d + m * minute_us \<and> valid_datetime r"
  by (simp add: add_minutes_def Let_def split: if_splits)

text \<open>
  With a negative \<open>slot_minutes\<close> the loop walks backwards; \<open>current_slot\<close> stays a
  valid datetime and decreases, so the loop ends, at the latest when the addition
  leaves the datetime range.
\<close>

lemma slot_loop_negative_returns:
  assumes "m < 0"
  shows "\<exists>r. slot_loop m day_end bs cur acc = Some r"
proof (induction "nat cur" arbitrary: cur acc rule: less_induct)
  case less
  show ?case
  proof (cases "add_minutes cur m")
    case (Inl e)
    then show ?thesis by (subst slot_loop.simps) simp
  next
    case (Inr slot_end)
    from add_minutes_Inr [OF Inr]
    have eq: "slot_end = cur + m * minute_us" and v: "valid_datetime slot_end" by blast+
    have "m * minute_us < 0"
      using assms by (simp add: minute_us_def)
    with eq v have "0 \<le> slot_end" "slot_end < cur"
      by (simp_all add: valid_datetime_def datetime_min_def)
    then have smaller: "nat slot_end < nat cur" by simp
    show ?thesis
    proof (cases "slot_end \<le> day_end")
      case True
      from less [OF smaller]
      obtain r where "slot_loop m day_end bs slot_end
            (if is_free cur slot_end bs then acc @ [(cur, slot_end)] else acc) = Some r"
        by blast
      with Inr True show ?thesis by (subst slot_loop.simps) simp
    next
      case False
      with Inr show ?thesis by (subst slot_loop.simps) simp
    qed
  qed
qed

text \<open>
  When the first look-ahead is not after \<open>day_end\<close>, no later one is, and the loop can
  only end by the \<^verbatim>\<open>OverflowError\<close> of the addition.
\<close>

lemma slot_loop_negative_overflow:
  assumes "m < 0"
  shows "cur + m * minute_us \<le> day_end \<Longrightarrow>
         slot_loop m day_end bs cur acc = Some (Inl OverflowError)"
proof (induction "nat cur" arbitrary: cur acc rule: less_induct)
  case less
  from add_minutes_cases [of cur m] show ?case
  proof
    assume "add_minutes cur m = Inl OverflowError"
    then show ?thesis by (subst slot_loop.simps) simp
  next
    assume add: "add_minutes cur m = Inr (cur + m * minute_us)"
    let ?e = "cur + m * minute_us"
    from add_minutes_Inr [OF add] have v: "valid_datetime ?e" by simp
    have neg: "m * minute_us < 0"
      using assms by (simp add: minute_us_def)
    with v have "0 \<le> ?e" "?e < cur"
      by (simp_all add: valid_datetime_def datetime_min_def)
    then have smaller: "nat ?e < nat cur" by simp
    have next_le: "?e + m * minute_us \<le> day_end"
      using neg less.prems by linarith
    from less.hyps [OF smaller next_le]
    have "slot_loop m day_end bs ?e
            (if is_free cur ?e bs then acc @ [(cur, ?e)] else acc) = Some (Inl OverflowError)" .
    with add less.prems show ?thesis by (subst slot_loop.simps) simp
  qed
qed

lemma slot_loop_zero_returns:
  assumes "\<not> (valid_datetime cur \<and> cur \<le> day_end)"
  shows "\<exists>r. slot_loop 0 day_end bs cur acc = Some r"
  using assms
  by (subst slot_loop.simps) (auto simp add: add_minutes_def)

lemma slot_loop_positive_returns:
  assumes "0 < m"
  shows "\<exists>r. slot_loop m day_end bs cur acc = Some r"
proof -
  define len where "len = m * minute_us"
  have len: "0 < len" using assms by (simp add: len_def minute_us_def)
  from grid_count(2) [OF len refl, of day_end cur]
  obtain r where "slot_loop_bounded (nat ((day_end - cur) div len)) m day_end bs cur acc = Some r"
    using slot_loop_bounded_returns [OF len_def len] by blast
  then show ?thesis using slot_loop_bounded_sound by blast
qed

lemma slot_loop_None_iff:
  "slot_loop m day_end bs cur acc = None \<longleftrightarrow>
     m = 0 \<and> valid_datetime cur \<and> cur \<le> day_end"
proof
  assume none: "slot_loop m day_end bs cur acc = None"
  show "m = 0 \<and> valid_datetime cur \<and> cur \<le> day_end"
  proof (rule ccontr)
    assume not: "\<not> (m = 0 \<and> valid_datetime cur \<and> cur \<le> day_end)"
    consider "0 < m" | "m < 0" | "m = 0" "\<not> (valid_datetime cur \<and> cur \<le> day_end)"
      using not by linarith
    then have "\<exists>r. slot_loop m day_end bs cur acc = Some r"
    proof cases
      case 1 then show ?thesis by (rule slot_loop_positive_returns)
    next
      case 2 then show ?thesis by (rule slot_loop_negative_returns)
    next
      case 3 then show ?thesis by (simp add: slot_loop_zero_returns)
    qed
    with none show False by simp
  qed
next
  assume "m = 0 \<and> valid_datetime cur \<and> cur \<le> day_end"
  then show "slot_loop m day_end bs cur acc = None"
    by (simp add: slot_loop_zero_step_diverges)
qed

lemma get_availability_None_iff:
  assumes "strptime date ''%Y-%m-%d'' = Some d"
    and "strptime work_start ''%H:%M'' = Some s"
    and "strptime work_end ''%H:%M'' = Some e"
    and "valid_datetime d"
  shows "get_availability strptime rid date slot_minutes work_start work_end db = None \<longleftrightarrow>
           slot_minutes = 0 \<and> time_of s \<le> time_of e \<and> in_int64 rid"
proof -
  let ?start = "combine (date_of d) (time_of s)"
  let ?end = "combine (date_of d) (time_of e)"
  let ?bs = "sort_key start_at
                (filter (\<lambda>b. resource_id b = rid \<and> status b = ''active'' \<and>
                              end_at b > ?start \<and> start_at b < ?end) (bookings db))"
  have v: "valid_datetime ?start"
    using combine_valid(1,2) [OF assms(4), of s]
    by (simp add: valid_datetime_def datetime_min_def)
  have le: "?start \<le> ?end \<longleftrightarrow> time_of s \<le> time_of e"
    by (simp add: combine_def)
  have "get_availability strptime rid date slot_minutes work_start work_end db = None \<longleftrightarrow>
          in_int64 rid \<and> slot_loop slot_minutes ?end ?bs ?start [] = None"
    unfolding get_availability_parsed [OF assms(1-3)]
    by (auto split: option.splits sum.splits)
  then show ?thesis
    using v le by (auto simp add: slot_loop_None_iff)
qed

text \<open>
  Claim C9 says that positivity of \<open>slot_minutes\<close> is required for the loop to
  terminate. It is not: on 2024-01-01 with \<open>slot_minutes = 0\<close> and the window 11:00 to
  09:00 the loop condition fails at once and the route returns no slots, and with
  \<open>slot_minutes = - 30\<close> and the window 09:00 to 11:00 the loop ends by the
  \<^verbatim>\<open>OverflowError\<close> of the addition.
\<close>

theorem slot_loop_nonpositive_counterexample:
  "slot_loop 0 (ex_at 540) [] (ex_at 660) [] = Some (Inr []) \<and>
   get_availability ex_strptime 1 ''2024-01-01'' 0 ''11:00'' ''09:00'' ex_schedule =
     Some (Inr \<lparr>resp_resource_id = 1, resp_date = ''2024-01-01'',
                resp_available_slots = []\<rparr>) \<and>
   slot_loop (- 30) (ex_at 660) [] (ex_at 540) [] = Some (Inl OverflowError) \<and>
   get_availability ex_strptime 1 ''2024-01-01'' (- 30) ''09:00'' ''11:00'' ex_schedule =
     Some (Inl OverflowError)"
proof -
  have zero: "slot_loop 0 (ex_at 540) bs (ex_at 660) [] = Some (Inr [])" for bs
    by (subst slot_loop.simps)
       (simp add: add_minutes_def valid_datetime_def datetime_min_def datetime_max_def
          ex_at_def ex_day_def day_us_def minute_us_def)
  have neg: "slot_loop (- 30) (ex_at 660) bs (ex_at 540) [] = Some (Inl OverflowError)" for bs
    by (rule slot_loop_negative_overflow) (simp_all add: ex_at_def minute_us_def)
  have p1: "ex_strptime ''2024-01-01'' ''%Y-%m-%d'' = Some ex_day"
    and p2: "ex_strptime ''09:00'' ''%H:%M'' = Some (693595 * day_us + 540 * minute_us)"
    and p3: "ex_strptime ''11:00'' ''%H:%M'' = Some (693595 * day_us + 660 * minute_us)"
    by (simp_all add: ex_strptime_def)
  have t9: "combine (date_of ex_day) (time_of (693595 * day_us + 540 * minute_us)) = ex_at 540"
    and t11: "combine (date_of ex_day) (time_of (693595 * day_us + 660 * minute_us)) = ex_at 660"
    by (simp_all add: ex_at_def ex_day_def combine_def date_of_def time_of_def day_us_def
          minute_us_def)
  have i: "in_int64 1" by (simp add: in_int64_def)
  have "get_availability ex_strptime 1 ''2024-01-01'' 0 ''11:00'' ''09:00'' ex_schedule =
     Some (Inr \<lparr>resp_resource_id = 1, resp_date = ''2024-01-01'',
                resp_available_slots = []\<rparr>)"
    unfolding get_availability_parsed [OF p1 p3 p2] t9 t11 using i by (simp add: zero)
  moreover
  have "get_availability ex_strptime 1 ''2024-01-01'' (- 30) ''09:00'' ''11:00'' ex_schedule =
     Some (Inl OverflowError)"
    unfolding get_availability_parsed [OF p1 p2 p3] t9 t11 using i by (simp add: neg)
  ultimately show ?thesis using zero neg by blast
qed

text \<open>
  Claim C9 as amended: for \<open>slot_minutes \<ge> 1\<close> and any \<open>day_start\<close>, \<open>day_end\<close> and
  bookings, the loop returns, and it does so within
  \<open>\<lfloor>(day_end - day_start) / slot length\<rfloor>\<close> executions of its body (none when
  \<open>day_end \<le> day_start\<close>), so the route returns for every input with
  \<open>slot_minutes \<ge> 1\<close>. The code never checks \<open>slot_minutes\<close>. Positivity is sufficient
  for termination and not required: the loop fails to return exactly when
  \<open>slot_minutes = 0\<close> and \<open>day_start\<close> is a datetime not after \<open>day_end\<close>; in particular
  it returns for every negative \<open>slot_minutes\<close>. When the three strings parse, the route
  fails to return exactly when \<open>slot_minutes = 0\<close>, work_start is not after work_end and
  the resource id can be bound.
\<close>

theorem slot_loop_terminates:
  "(1 \<le> slot_minutes \<longrightarrow>
      (\<exists>r. slot_loop_bounded (nat ((day_end - day_start) div (slot_minutes * minute_us)))
              slot_minutes day_end bs day_start [] = Some r \<and>
            slot_loop slot_minutes day_end bs day_start [] = Some r) \<and>
      (day_end \<le> day_start \<longrightarrow>
         (\<exists>r. slot_loop_bounded 0 slot_minutes day_end bs day_start [] = Some r)) \<and>
      (\<exists>r. get_availability strptime rid date slot_minutes work_start work_end db = Some r)) \<and>
   (slot_loop slot_minutes day_end bs day_start [] = None \<longleftrightarrow>
      slot_minutes = 0 \<and> valid_datetime day_start \<and> day_start \<le> day_end) \<and>
   (slot_minutes < 0 \<longrightarrow> (\<exists>r. slot_loop slot_minutes day_end bs day_start [] = Some r)) \<and>
   (strptime date ''%Y-%m-%d'' = Some d \<and> strptime work_start ''%H:%M'' = Some s \<and>
    strptime work_end ''%H:%M'' = Some e \<and> valid_datetime d \<longrightarrow>
      (get_availability strptime rid date slot_minutes work_start work_end db = None \<longleftrightarrow>
         slot_minutes = 0 \<and> time_of s \<le> time_of e \<and> in_int64 rid))"
proof -
  have positive: "1 \<le> slot_minutes \<longrightarrow>
      (\<exists>r. slot_loop_bounded (nat ((day_end - day_start) div (slot_minutes * minute_us)))
              slot_minutes day_end bs day_start [] = Some r \<and>
            slot_loop slot_minutes day_end bs day_start [] = Some r) \<and>
      (day_end \<le> day_start \<longrightarrow>
         (\<exists>r. slot_loop_bounded 0 slot_minutes day_end bs day_start [] = Some r)) \<and>
      (\<exists>r. get_availability strptime rid date slot_minutes work_start work_end db = Some r)"
  proof (intro conjI impI)
    assume pos: "1 \<le> slot_minutes"
    define len where "len = slot_minutes * minute_us"
    have len: "0 < len" using pos by (simp add: len_def minute_us_def)
    have returns: "\<exists>r. slot_loop_bounded (nat ((day_end - cur) div len)) slot_minutes day_end bs cur []
                          = Some r \<and>
                       slot_loop slot_minutes day_end bs cur [] = Some r" for day_end cur bs
    proof -
      from grid_count(2) [OF len refl, of day_end cur]
      obtain r where "slot_loop_bounded (nat ((day_end - cur) div len)) slot_minutes day_end bs cur []
                        = Some r"
        using slot_loop_bounded_returns [OF len_def len] by blast
      then show ?thesis using slot_loop_bounded_sound by blast
    qed
    show "\<exists>r. slot_loop_bounded (nat ((day_end - day_start) div (slot_minutes * minute_us)))
                slot_minutes day_end bs day_start [] = Some r \<and>
              slot_loop slot_minutes day_end bs day_start [] = Some r"
      using returns [of day_end day_start bs] by (simp add: len_def)
    show "\<exists>r. get_availability strptime rid date slot_minutes work_start work_end db = Some r"
    proof (cases "strptime date ''%Y-%m-%d''")
      case None
      then show ?thesis by (simp add: get_availability_def)
    next
      case d: (Some d)
      show ?thesis
      proof (cases "strptime work_start ''%H:%M''")
        case None
        with d show ?thesis by (simp add: get_availability_def)
      next
        case s: (Some s)
        show ?thesis
        proof (cases "strptime work_end ''%H:%M''")
          case None
          with d s show ?thesis by (simp add: get_availability_def)
        next
          case e: (Some e)
          let ?bs = "sort_key start_at
                  (filter (\<lambda>b. resource_id b = rid \<and> status b = ''active'' \<and>
                                end_at b > combine (date_of d) (time_of s) \<and>
                                start_at b < combine (date_of d) (time_of e)) (bookings db))"
          from returns [of "combine (date_of d) (time_of e)" "combine (date_of d) (time_of s)" ?bs]
          obtain r where "slot_loop slot_minutes (combine (date_of d) (time_of e)) ?bs
                            (combine (date_of d) (time_of s)) [] = Some r"
            by blast
          then show ?thesis
            unfolding get_availability_parsed [OF d s e] by (cases r) simp_all
        qed
      qed
    qed
    assume "day_end \<le> day_start"
    then have "day_end < day_start + (int 0 + 1) * len" using len by simp
    from slot_loop_bounded_returns [OF len_def len this]
    show "\<exists>r. slot_loop_bounded 0 slot_minutes day_end bs day_start [] = Some r" .
  qed
  have loop: "slot_loop slot_minutes day_end bs day_start [] = None \<longleftrightarrow>
      slot_minutes = 0 \<and> valid_datetime day_start \<and> day_start \<le> day_end"
    by (rule slot_loop_None_iff)
  have negative: "slot_minutes < 0 \<longrightarrow>
      (\<exists>r. slot_loop slot_minutes day_end bs day_start [] = Some r)"
    by (simp add: slot_loop_negative_returns)
  have route: "strptime date ''%Y-%m-%d'' = Some d \<and> strptime work_start ''%H:%M'' = Some s \<and>
    strptime work_end ''%H:%M'' = Some e \<and> valid_datetime d \<longrightarrow>
      (get_availability strptime rid date slot_minutes work_start work_end db = None \<longleftrightarrow>
         slot_minutes = 0 \<and> time_of s \<le> time_of e \<and> in_int64 rid)"
  proof
    assume "strptime date ''%Y-%m-%d'' = Some d \<and> strptime work_start ''%H:%M'' = Some s \<and>
      strptime work_end ''%H:%M'' = Some e \<and> valid_datetime d"
    then have d: "strptime date ''%Y-%m-%d'' = Some d"
      and s: "strptime work_start ''%H:%M'' = Some s"
      and e: "strptime work_end ''%H:%M'' = Some e"
      and v: "valid_datetime d"
      by simp_all
    show "get_availability strptime rid date slot_minutes work_start work_end db = None \<longleftrightarrow>
         slot_minutes = 0 \<and> time_of s \<le> time_of e \<and> in_int64 rid"
      by (rule get_availability_None_iff [OF d s e v])
  qed
  show ?thesis
    by (rule conjI [OF positive conjI [OF loop conjI [OF negative route]]])
qed

theorem slot_loop_terminates_witness:
  "(1::int) \<le> 30 \<and>
   nat ((ex_at 660 - ex_at 540) div (30 * minute_us)) = 4 \<and>
   slot_loop_bounded 4 30 (ex_at 660) [] (ex_at 540) [] =
     Some (Inr [(ex_at 540, ex_at 570), (ex_at 570, ex_at 600),
                (ex_at 600, ex_at 630), (ex_at 630, ex_at 660)]) \<and>
   slot_loop 30 (ex_at 660) [] (ex_at 540) [] =
     Some (Inr [(ex_at 540, ex_at 570), (ex_at 570, ex_at 600),
                (ex_at 600, ex_at 630), (ex_at 630, ex_at 660)]) \<and>
   slot_loop_bounded 3 30 (ex_at 660) [] (ex_at 540) [] = None \<and>
   (\<exists>r. slot_loop_bounded 0 30 (ex_at 540) [] (ex_at 660) [] = Some r) \<and>
   valid_datetime (ex_at 540) \<and> ex_at 540 \<le> ex_at 660 \<and>
   slot_loop 0 (ex_at 660) [] (ex_at 540) [] = None \<and>
   (\<exists>r. slot_loop (- 30) (ex_at 660) [] (ex_at 540) [] = Some r) \<and>
   in_int64 1 \<and>
   get_availability ex_strptime 1 ''2024-01-01'' 0 ''09:00'' ''11:00'' ex_schedule = None \<and>
   get_availability ex_strptime 1 ''2024-01-01'' 0 ''11:00'' ''09:00'' ex_schedule \<noteq> None"
proof -
  have one: "(1::int) \<le> 30" by simp
  have n: "nat ((ex_at 660 - ex_at 540) div (30 * minute_us)) = 4"
    by (simp add: ex_at_def minute_us_def)
  have four: "slot_loop_bounded 4 30 (ex_at 660) [] (ex_at 540) [] =
     Some (Inr [(ex_at 540, ex_at 570), (ex_at 570, ex_at 600),
                (ex_at 600, ex_at 630), (ex_at 630, ex_at 660)])"
    by code_simp
  have three: "slot_loop_bounded 3 30 (ex_at 660) [] (ex_at 540) [] = None"
    by code_simp
  have v: "valid_datetime (ex_at 540)"
    by (simp add: valid_datetime_def ex_at_def ex_day_def datetime_min_def datetime_max_def
          day_us_def minute_us_def)
  have le: "ex_at 540 \<le> ex_at 660"
    by (simp add: ex_at_def minute_us_def)
  have p1: "ex_strptime ''2024-01-01'' ''%Y-%m-%d'' = Some ex_day"
    and p2: "ex_strptime ''09:00'' ''%H:%M'' = Some (693595 * day_us + 540 * minute_us)"
    and p3: "ex_strptime ''11:00'' ''%H:%M'' = Some (693595 * day_us + 660 * minute_us)"
    by (simp_all add: ex_strptime_def)
  have vd: "valid_datetime ex_day"
    by (simp add: valid_datetime_def ex_day_def datetime_min_def datetime_max_def day_us_def)
  have i: "in_int64 1" by (simp add: in_int64_def)
  have tle: "time_of (693595 * day_us + 540 * minute_us) \<le> time_of (693595 * day_us + 660 * minute_us)"
    and tgt: "\<not> time_of (693595 * day_us + 660 * minute_us) \<le> time_of (693595 * day_us + 540 * minute_us)"
    by (simp_all add: time_of_def day_us_def minute_us_def)
  note t30 = slot_loop_terminates [of 30 "ex_at 660" "ex_at 540" "[]"]
  note t30b = slot_loop_terminates [of 30 "ex_at 540" "ex_at 660" "[]"]
  note t0 = slot_loop_terminates [of 0 "ex_at 660" "ex_at 540" "[]" ex_strptime 1 "''2024-01-01''"
      "''09:00''" "''11:00''" ex_schedule ex_day "693595 * day_us + 540 * minute_us"
      "693595 * day_us + 660 * minute_us"]
  note t0b = slot_loop_terminates [of 0 "ex_at 540" "ex_at 660" "[]" ex_strptime 1 "''2024-01-01''"
      "''11:00''" "''09:00''" ex_schedule ex_day "693595 * day_us + 660 * minute_us"
      "693595 * day_us + 540 * minute_us"]
  note tneg = slot_loop_terminates [of "- 30" "ex_at 660" "ex_at 540" "[]"]
  from t30 [THEN conjunct1, THEN mp, OF one, THEN conjunct1]
  have run: "slot_loop 30 (ex_at 660) [] (ex_at 540) [] =
     Some (Inr [(ex_at 540, ex_at 570), (ex_at 570, ex_at 600),
                (ex_at 600, ex_at 630), (ex_at 630, ex_at 660)])"
    by (auto simp add: n four)
  from t30b [THEN conjunct1, THEN mp, OF one, THEN conjunct2, THEN conjunct1] le
  have zero: "\<exists>r. slot_loop_bounded 0 30 (ex_at 540) [] (ex_at 660) [] = Some r"
    by simp
  from t0 [THEN conjunct2, THEN conjunct1] v le
  have div: "slot_loop 0 (ex_at 660) [] (ex_at 540) [] = None" by simp
  from tneg [THEN conjunct2, THEN conjunct2, THEN conjunct1]
  have neg: "\<exists>r. slot_loop (- 30) (ex_at 660) [] (ex_at 540) [] = Some r" by simp
  from t0 [THEN conjunct2, THEN conjunct2, THEN conjunct2, THEN mp,
           OF conjI [OF p1 conjI [OF p2 conjI [OF p3 vd]]]] tle i
  have route: "get_availability ex_strptime 1 ''2024-01-01'' 0 ''09:00'' ''11:00'' ex_schedule = None"
    by simp
  from t0b [THEN conjunct2, THEN conjunct2, THEN conjunct2, THEN mp,
            OF conjI [OF p1 conjI [OF p3 conjI [OF p2 vd]]]] tgt
  have reversed: "get_availability ex_strptime 1 ''2024-01-01'' 0 ''11:00'' ''09:00'' ex_schedule \<noteq> None"
    by simp
  from one n four three run div route reversed zero neg v le i show ?thesis by blast
qed

end
